theory Spec2Isabelle
  imports Complex_Main
begin

section \<open>Exceptions and the wall clock\<close>

text \<open>
  The exception classes of \<^verbatim>\<open>throttle.py\<close> and \<^verbatim>\<open>coordinador_async.py\<close>, together with the
  library exceptions that can reach their handlers. Python floats are modelled as
  \<^typ>\<open>real\<close> (rounding is not modelled).
\<close>

datatype exc_class =
    EcoMarketError
  | HTTPValidationError
  | ServerError
  | ProductoNoEncontrado
  | NoAutorizado
  | ServicioNoDisponible
  | TimeoutError
  | ConexionError
  | ResponseValidationError
  | SchemaValidationError
  | URLSecurityError
  | AsyncioTimeoutError
  | ClientConnectorError
  | ContentTypeError
  | ZeroDivisionError
  | ValueError
  | TypeError
  | CancelledError

text \<open>\<^verbatim>\<open>isinstance(e, Exception)\<close>: since Python 3.8 \<^verbatim>\<open>asyncio.CancelledError\<close> derives from
  \<^verbatim>\<open>BaseException\<close> only.\<close>

fun is_Exception :: "exc_class \<Rightarrow> bool" where
  "is_Exception CancelledError = False"
| "is_Exception _ = True"

text \<open>
  \<^verbatim>\<open>time.time()\<close> reads the wall clock. The environment \<open>J\<close> says how much time passes before
  each read (\<open>J k\<close> before the \<open>k\<close>-th read of the run); \<^verbatim>\<open>asyncio.sleep(d)\<close> lets \<open>max 0 d\<close>
  pass and is logged in \<open>slept\<close>.
\<close>

record clock =
  now :: real
  reads :: nat
  slept :: "real list"

definition time_time :: "(nat \<Rightarrow> real) \<Rightarrow> clock \<Rightarrow> real \<times> clock" where
  "time_time J clk =
     (now clk + J (reads clk),
      clk\<lparr>now := now clk + J (reads clk), reads := Suc (reads clk)\<rparr>)"

definition asyncio_sleep :: "real \<Rightarrow> clock \<Rightarrow> clock" where
  "asyncio_sleep d clk = clk\<lparr>now := now clk + max 0 d, slept := slept clk @ [d]\<rparr>"

section \<open>TokenBucket\<close>

record TokenBucket =
  max_tokens :: int
  tokens_per_second :: real
  tokens :: real
  last_refill :: real

text \<open>\<^verbatim>\<open>__post_init__\<close>: \<^verbatim>\<open>self.tokens = self.max_tokens; self.last_refill = time.time()\<close>.\<close>

definition post_init :: "int \<Rightarrow> real \<Rightarrow> real \<Rightarrow> TokenBucket" where
  "post_init mt tps t =
     \<lparr>max_tokens = mt, tokens_per_second = tps, tokens = real_of_int mt, last_refill = t\<rparr>"

text \<open>The three writes of the loop body of \<^verbatim>\<open>acquire\<close>, one definition per assignment.\<close>

definition refill_tokens :: "real \<Rightarrow> TokenBucket \<Rightarrow> TokenBucket" where
  "refill_tokens t b =
     (let elapsed = t - last_refill b
      in b\<lparr>tokens := min (real_of_int (max_tokens b)) (tokens b + elapsed * tokens_per_second b)\<rparr>)"

definition stamp_refill :: "real \<Rightarrow> TokenBucket \<Rightarrow> TokenBucket" where
  "stamp_refill t b = b\<lparr>last_refill := t\<rparr>"

definition take_token :: "TokenBucket \<Rightarrow> TokenBucket" where
  "take_token b = b\<lparr>tokens := tokens b - 1\<rparr>"

text \<open>
  \<^verbatim>\<open>TokenBucket.acquire\<close>. The \<^verbatim>\<open>while True\<close> loop is bounded by a number of iterations
  (\<open>None\<close>: not returned within that many iterations). A zero rate makes
  \<^verbatim>\<open>deficit / self.tokens_per_second\<close> raise \<^verbatim>\<open>ZeroDivisionError\<close>.
\<close>

fun acquire_loop ::
  "(nat \<Rightarrow> real) \<Rightarrow> nat \<Rightarrow> real \<Rightarrow> TokenBucket \<Rightarrow> clock
     \<Rightarrow> ((exc_class + real) \<times> TokenBucket \<times> clock) option" where
  "acquire_loop J 0 inicio_espera b clk = None"
| "acquire_loop J (Suc n) inicio_espera b clk =
     (let t = fst (time_time J clk);
          clk1 = snd (time_time J clk);
          b2 = stamp_refill t (refill_tokens t b)
      in if tokens b2 \<ge> 1 then
           Some (Inr (fst (time_time J clk1) - inicio_espera), take_token b2,
                 snd (time_time J clk1))
         else
           (let deficit = 1 - tokens b2
            in if tokens_per_second b2 = 0 then Some (Inl ZeroDivisionError, b2, clk1)
               else acquire_loop J n inicio_espera b2
                      (asyncio_sleep (deficit / tokens_per_second b2) clk1)))"

definition acquire ::
  "(nat \<Rightarrow> real) \<Rightarrow> nat \<Rightarrow> TokenBucket \<Rightarrow> clock
     \<Rightarrow> ((exc_class + real) \<times> TokenBucket \<times> clock) option" where
  "acquire J n b clk =
     acquire_loop J n (fst (time_time J clk)) b (snd (time_time J clk))"

text \<open>
  The bucket states that can be observed while one pass of the loop body runs at clock
  reading \<open>t\<close>: after the refill, after the time stamp, and after the decrement when a token
  is granted. No suspension point lies inside a pass, so the passes of all callers of one
  bucket happen one after another; \<open>observe\<close> lists what is seen over a sequence of passes.
\<close>

definition pass_end :: "real \<Rightarrow> TokenBucket \<Rightarrow> TokenBucket" where
  "pass_end t b =
     (let b2 = stamp_refill t (refill_tokens t b)
      in if tokens b2 \<ge> 1 then take_token b2 else b2)"

definition pass_states :: "real \<Rightarrow> TokenBucket \<Rightarrow> TokenBucket list" where
  "pass_states t b =
     [refill_tokens t b, stamp_refill t (refill_tokens t b), pass_end t b]"

fun observe :: "real list \<Rightarrow> TokenBucket \<Rightarrow> TokenBucket list" where
  "observe [] b = []"
| "observe (t # ts) b = pass_states t b @ observe ts (pass_end t b)"

text \<open>
  Modelled on the specification's words (section 4.1), to be compared with the source:
  one check of the specified algorithm at clock reading \<open>t\<close>.
\<close>

datatype spec_step = Grant_wait0 TokenBucket | Suspend real TokenBucket

definition spec_acquire_step :: "real \<Rightarrow> TokenBucket \<Rightarrow> spec_step" where
  "spec_acquire_step t b =
     (let elapsed = t - last_refill b;
          refilled = min (real_of_int (max_tokens b)) (tokens b + elapsed * tokens_per_second b)
      in if refilled \<ge> 1
         then Grant_wait0 (b\<lparr>tokens := refilled - 1, last_refill := t\<rparr>)
         else Suspend ((1 - refilled) / tokens_per_second b)
                (b\<lparr>tokens := refilled, last_refill := t\<rparr>))"

text \<open>Python's \<^verbatim>\<open>int(x)\<close> on a float truncates toward zero.\<close>

definition py_int :: "real \<Rightarrow> int" where
  "py_int x = (if x \<ge> 0 then \<lfloor>x\<rfloor> else \<lceil>x\<rceil>)"

section \<open>RateLimiter\<close>

record RateLimiter =
  max_per_second :: real
  bucket :: TokenBucket
  total_wait_time :: real
  requests_made :: int

text \<open>\<^verbatim>\<open>RateLimiter.__init__\<close>; \<open>t\<close> is the clock reading taken by \<^verbatim>\<open>__post_init__\<close>.\<close>

definition RateLimiter_init :: "real \<Rightarrow> real \<Rightarrow> RateLimiter" where
  "RateLimiter_init mps t =
     \<lparr>max_per_second = mps, bucket = post_init (py_int mps) mps t,
      total_wait_time = 0, requests_made = 0\<rparr>"

text \<open>\<^verbatim>\<open>RateLimiter.AcquireContext.__aenter__\<close>; \<^verbatim>\<open>__aexit__\<close> only returns \<^verbatim>\<open>False\<close>.\<close>

definition rate_aenter ::
  "(nat \<Rightarrow> real) \<Rightarrow> nat \<Rightarrow> RateLimiter \<Rightarrow> clock
     \<Rightarrow> ((exc_class + real) \<times> RateLimiter \<times> clock) option" where
  "rate_aenter J n rl clk =
     (case acquire J n (bucket rl) clk of
        None \<Rightarrow> None
      | Some (Inl e, b', clk') \<Rightarrow> Some (Inl e, rl\<lparr>bucket := b'\<rparr>, clk')
      | Some (Inr wait_time, b', clk') \<Rightarrow>
          Some (Inr wait_time,
                rl\<lparr>bucket := b', requests_made := requests_made rl + 1,
                   total_wait_time := total_wait_time rl + wait_time\<rparr>, clk'))"

definition rate_aexit :: "RateLimiter \<Rightarrow> RateLimiter" where
  "rate_aexit rl = rl"

definition average_wait_time :: "RateLimiter \<Rightarrow> real" where
  "average_wait_time rl =
     (if requests_made rl = 0 then 0 else total_wait_time rl / real_of_int (requests_made rl))"

section \<open>ConcurrencyLimiter\<close>

record ConcurrencyLimiter =
  max_concurrent :: int
  semaphore :: int
  in_flight :: int

text \<open>\<^verbatim>\<open>asyncio.Semaphore(value)\<close> raises \<^verbatim>\<open>ValueError\<close> for a negative value.\<close>

definition ConcurrencyLimiter_init :: "int \<Rightarrow> exc_class + ConcurrencyLimiter" where
  "ConcurrencyLimiter_init m =
     (if m < 0 then Inl ValueError
      else Inr \<lparr>max_concurrent = m, semaphore = m, in_flight = 0\<rparr>)"

text \<open>
  One task inside \<^verbatim>\<open>async with limiter.acquire(): body\<close>, statement by statement.
  \<open>Entering\<close> stands at \<^verbatim>\<open>await self.limiter.semaphore.acquire()\<close>, which goes on only
  when a permit is free; \<open>Running\<close> is the body, which ends normally (\<open>None\<close>) or with an
  exception; \<^verbatim>\<open>__aexit__\<close> decrements, releases and returns \<^verbatim>\<open>False\<close>, so the body's
  exception goes on to the caller.
\<close>

datatype pc =
    Entering
  | GotPermit
  | Running
  | Leaving "exc_class option"
  | Releasing "exc_class option"
  | Finished "exc_class option"

fun limiter_step ::
  "exc_class option \<Rightarrow> pc \<Rightarrow> ConcurrencyLimiter \<Rightarrow> pc \<times> ConcurrencyLimiter" where
  "limiter_step r Entering l =
     (if semaphore l > 0 then (GotPermit, l\<lparr>semaphore := semaphore l - 1\<rparr>)
      else (Entering, l))"
| "limiter_step r GotPermit l = (Running, l\<lparr>in_flight := in_flight l + 1\<rparr>)"
| "limiter_step r Running l = (Leaving r, l)"
| "limiter_step r (Leaving x) l = (Releasing x, l\<lparr>in_flight := in_flight l - 1\<rparr>)"
| "limiter_step r (Releasing x) l = (Finished x, l\<lparr>semaphore := semaphore l + 1\<rparr>)"
| "limiter_step r (Finished x) l = (Finished x, l)"

text \<open>
  Several tasks share one limiter. A schedule names, step by step, the task that runs its
  next statement (and how its body ends, used when that statement is the body).
\<close>

type_synonym limiter_system = "pc list \<times> ConcurrencyLimiter"

fun sched_step :: "nat \<times> exc_class option \<Rightarrow> limiter_system \<Rightarrow> limiter_system" where
  "sched_step (i, r) (pcs, l) =
     (if i < length pcs
      then (pcs[i := fst (limiter_step r (pcs ! i) l)], snd (limiter_step r (pcs ! i) l))
      else (pcs, l))"

fun limiter_trace :: "(nat \<times> exc_class option) list \<Rightarrow> limiter_system \<Rightarrow> limiter_system list" where
  "limiter_trace [] s = [s]"
| "limiter_trace (e # es) s = s # limiter_trace es (sched_step e s)"

text \<open>The same statements for a single caller that nothing else can unblock.\<close>

definition conc_aenter :: "ConcurrencyLimiter \<Rightarrow> ConcurrencyLimiter option" where
  "conc_aenter l =
     (if semaphore l > 0
      then Some (l\<lparr>semaphore := semaphore l - 1, in_flight := in_flight l + 1\<rparr>)
      else None)"

definition conc_aexit :: "ConcurrencyLimiter \<Rightarrow> ConcurrencyLimiter" where
  "conc_aexit l = l\<lparr>in_flight := in_flight l - 1, semaphore := semaphore l + 1\<rparr>"

section \<open>ThrottledClient\<close>

text \<open>A JSON value is kept as the text \<^verbatim>\<open>str()\<close> gives for it; the byte counters add its length.\<close>

type_synonym json = string

record Metrics =
  total_requests :: int
  successful_requests :: int
  failed_requests :: int
  total_bytes_sent :: int
  total_bytes_received :: int

record ThrottledClient =
  concurrency_limiter :: ConcurrencyLimiter
  rate_limiter :: RateLimiter
  metrics :: Metrics

definition metrics0 :: Metrics where
  "metrics0 = \<lparr>total_requests = 0, successful_requests = 0, failed_requests = 0,
               total_bytes_sent = 0, total_bytes_received = 0\<rparr>"

definition ThrottledClient_init :: "int \<Rightarrow> real \<Rightarrow> real \<Rightarrow> exc_class + ThrottledClient" where
  "ThrottledClient_init mc mps t =
     (case ConcurrencyLimiter_init mc of
        Inl e \<Rightarrow> Inl e
      | Inr l \<Rightarrow>
          Inr \<lparr>concurrency_limiter = l, rate_limiter = RateLimiter_init mps t,
               metrics = metrics0\<rparr>)"

text \<open>
  What the server and the transport do with one request: \<^verbatim>\<open>session.request\<close> raises, or a
  response arrives with a status and with what \<^verbatim>\<open>await response.json()\<close> would give.
\<close>

datatype http_event =
    Response int "exc_class + json"
  | RequestRaises exc_class

text \<open>The \<^verbatim>\<open>try\<close> block of \<^verbatim>\<open>_request\<close> (step 3).\<close>

definition try_block ::
  "json option \<Rightarrow> http_event \<Rightarrow> Metrics \<Rightarrow> (exc_class + json option) \<times> Metrics" where
  "try_block json_data ev m =
     (let m1 = m\<lparr>total_requests := total_requests m + 1\<rparr>;
          m2 = (case json_data of
                  None \<Rightarrow> m1
                | Some d \<Rightarrow> m1\<lparr>total_bytes_sent := total_bytes_sent m1 + int (length d)\<rparr>)
      in case ev of
           RequestRaises e \<Rightarrow> (Inl e, m2)
         | Response status body \<Rightarrow>
             if status \<ge> 500 then (Inl ServerError, m2)
             else if status \<ge> 400 then (Inl HTTPValidationError, m2)
             else if status = 204
               then (Inr None, m2\<lparr>successful_requests := successful_requests m2 + 1\<rparr>)
             else (case body of
                     Inl e \<Rightarrow> (Inl e, m2)
                   | Inr result \<Rightarrow>
                       (Inr (Some result),
                        m2\<lparr>total_bytes_received := total_bytes_received m2 + int (length result),
                           successful_requests := successful_requests m2 + 1\<rparr>)))"

text \<open>
  The \<^verbatim>\<open>except\<close> clauses of \<^verbatim>\<open>_request\<close>. The first one is \<^verbatim>\<open>except aiohttp.ClientTimeout:\<close>,
  and \<^verbatim>\<open>aiohttp.ClientTimeout\<close> is the class of the time-out settings (the \<^verbatim>\<open>try\<close> block
  itself builds one with \<^verbatim>\<open>aiohttp.ClientTimeout(total=timeout)\<close>), not a class of
  exceptions. When an exception of the \<^verbatim>\<open>try\<close> block reaches the clauses, Python tests it
  against the first clause and raises \<^verbatim>\<open>TypeError\<close> (catching classes that do not inherit
  from \<^verbatim>\<open>BaseException\<close> is not allowed). So whatever the block raised, the caller gets
  \<^verbatim>\<open>TypeError\<close>; the bodies of the clauses, which would add to \<open>failed_requests\<close>, and the
  second clause are never run.
\<close>

fun except_clauses ::
  "(exc_class + json option) \<times> Metrics \<Rightarrow> (exc_class + json option) \<times> Metrics" where
  "except_clauses (Inl e, m) = (Inl TypeError, m)"
| "except_clauses (Inr result, m) = (Inr result, m)"

text \<open>
  \<^verbatim>\<open>ThrottledClient._request\<close>. \<open>url\<close> is what \<^verbatim>\<open>build_url\<close> gives (it may raise before any
  limiter is touched). A caller that finds no free permit waits; with no other task to
  release one it waits for ever (\<open>None\<close>). The HTTP session that \<^verbatim>\<open>_ensure_session\<close> opens
  carries no state of the limiters or the metrics and is left out.
\<close>

definition request ::
  "(nat \<Rightarrow> real) \<Rightarrow> nat \<Rightarrow> exc_class + string \<Rightarrow> json option \<Rightarrow> http_event
     \<Rightarrow> ThrottledClient \<Rightarrow> clock
     \<Rightarrow> ((exc_class + json option) \<times> ThrottledClient \<times> clock) option" where
  "request J n url json_data ev c clk =
     (case url of
        Inl e \<Rightarrow> Some (Inl e, c, clk)
      | Inr u \<Rightarrow>
         (case rate_aenter J n (rate_limiter c) clk of
            None \<Rightarrow> None
          | Some (Inl e, rl, clk') \<Rightarrow> Some (Inl e, c\<lparr>rate_limiter := rl\<rparr>, clk')
          | Some (Inr wait_time, rl, clk') \<Rightarrow>
             (case conc_aenter (concurrency_limiter c) of
                None \<Rightarrow> None
              | Some l \<Rightarrow>
                 (let rm = except_clauses (try_block json_data ev (metrics c))
                  in Some (fst rm,
                           c\<lparr>concurrency_limiter := conc_aexit l,
                             rate_limiter := rate_aexit rl,
                             metrics := snd rm\<rparr>,
                           clk')))))"



text \<open>\<^verbatim>\<open>get_metrics\<close>: the dictionary it builds; the client is handed back as it was read.\<close>

record metrics_snapshot =
  snap_metrics :: Metrics
  snap_in_flight :: int
  snap_average_wait_time :: real
  snap_max_concurrent :: int
  snap_max_per_second :: real

definition get_metrics :: "ThrottledClient \<Rightarrow> metrics_snapshot \<times> ThrottledClient" where
  "get_metrics c =
     (\<lparr>snap_metrics = metrics c,
       snap_in_flight = in_flight (concurrency_limiter c),
       snap_average_wait_time = average_wait_time (rate_limiter c),
       snap_max_concurrent = max_concurrent (concurrency_limiter c),
       snap_max_per_second = max_per_second (rate_limiter c)\<rparr>, c)"

section \<open>Fan-out of product creations\<close>









section \<open>Coordinator: tasks and what \<^verbatim>\<open>asyncio.wait\<close> returns\<close>

datatype endpoint = Productos | Categorias | Perfil | Notificaciones

text \<open>What \<^verbatim>\<open>await tarea\<close> gives for a settled task: its result, or the exception it raised
  with the text of \<^verbatim>\<open>str(e)\<close>.\<close>

datatype outcome = Result json | Raises exc_class string

text \<open>
  Each \<^verbatim>\<open>await asyncio.wait(pendientes, return_when=FIRST_COMPLETED)\<close> returns a pair: the
  settled tasks (listed in the order in which the \<^verbatim>\<open>for\<close> loop visits them, each with its
  outcome) and the tasks still pending. A run is given the list of these pairs; when the
  list is used up while tasks are pending, the wait never returns (\<open>None\<close>).
\<close>

type_synonym wait_result = "(endpoint \<times> outcome) list \<times> endpoint list"

record error_entry =
  endpoint :: endpoint
  error :: string
  cancelada :: "bool option"

record carga =
  datos :: "endpoint \<Rightarrow> json option"
  errores :: "error_entry list"

datatype task_status = Pending | Settled | CancelRequested

text \<open>
  The tasks of the dashboard. Each builds its address from a fixed name without parameters
  (\<^verbatim>\<open>build_url\<close> joins it to the base address) and then enters its \<^verbatim>\<open>try\<close> block. What the
  server and the transport do with the request of a task: \<^verbatim>\<open>session.get\<close> raises, or a
  response arrives with its status, its \<^verbatim>\<open>Content-Type\<close> header (empty when absent) and what
  \<^verbatim>\<open>await response.json()\<close> would give.
\<close>

datatype reply =
    Reply int string "exc_class + json"
  | NoReply exc_class

text \<open>Python's \<^verbatim>\<open>s in xs\<close> on strings.\<close>

fun starts_with :: "string \<Rightarrow> string \<Rightarrow> bool" where
  "starts_with [] xs = True"
| "starts_with (c # cs) [] = False"
| "starts_with (c # cs) (x # xs) = (c = x \<and> starts_with cs xs)"

fun contains :: "string \<Rightarrow> string \<Rightarrow> bool" where
  "contains s [] = (s = [])"
| "contains s (x # xs) = (starts_with s (x # xs) \<or> contains s xs)"

text \<open>\<^verbatim>\<open>_verificar_respuesta\<close>: the exception it raises, if any.\<close>

definition verificar_respuesta :: "int \<Rightarrow> string \<Rightarrow> exc_class option" where
  "verificar_respuesta status content_type =
     (if status = 503 then Some ServicioNoDisponible
      else if status \<ge> 500 then Some ServerError
      else if status = 401 then Some NoAutorizado
      else if status \<ge> 400 then Some HTTPValidationError
      else if \<not> contains ''application/json'' content_type \<and> status \<noteq> 204
        then Some HTTPValidationError
      else None)"

text \<open>The \<^verbatim>\<open>try\<close> block shared by \<^verbatim>\<open>obtener_categorias\<close>, \<^verbatim>\<open>obtener_perfil\<close> and
  \<^verbatim>\<open>obtener_notificaciones\<close>; \<^verbatim>\<open>listar_productos\<close> validates the list as well
  (\<^verbatim>\<open>_validar_y_retornar_lista\<close>, the lists that pass being the parameter \<open>valida\<close>).\<close>

definition peticion :: "reply \<Rightarrow> exc_class + json" where
  "peticion r =
     (case r of
        NoReply e \<Rightarrow> Inl e
      | Reply status content_type body \<Rightarrow>
          (case verificar_respuesta status content_type of
             Some e \<Rightarrow> Inl e
           | None \<Rightarrow> body))"

definition validar_y_retornar_lista :: "(json \<Rightarrow> bool) \<Rightarrow> json \<Rightarrow> exc_class + json" where
  "validar_y_retornar_lista valida data =
     (if valida data then Inr data else Inl ResponseValidationError)"

text \<open>
  The \<^verbatim>\<open>except\<close> clauses of the four tasks. As in \<^verbatim>\<open>_request\<close>, the first clause is
  \<^verbatim>\<open>except aiohttp.ClientTimeout:\<close> and names the class of the time-out settings (built in
  the same functions with \<^verbatim>\<open>aiohttp.ClientTimeout(total=timeout)\<close>): whatever exception the
  \<^verbatim>\<open>try\<close> block raises, \<^verbatim>\<open>NoAutorizado\<close> and \<^verbatim>\<open>CancelledError\<close> included, the task ends with
  \<^verbatim>\<open>TypeError\<close> and the later clauses are never reached.
\<close>

definition msg_catching :: string where
  "msg_catching = ''catching classes that do not inherit from BaseException is not allowed''"

fun manejadores :: "exc_class + json \<Rightarrow> outcome" where
  "manejadores (Inr v) = Result v"
| "manejadores (Inl e) = Raises TypeError msg_catching"

definition listar_productos :: "(json \<Rightarrow> bool) \<Rightarrow> reply \<Rightarrow> outcome" where
  "listar_productos valida r =
     manejadores (case peticion r of
                    Inl e \<Rightarrow> Inl e
                  | Inr data \<Rightarrow> validar_y_retornar_lista valida data)"

definition obtener_categorias :: "reply \<Rightarrow> outcome" where
  "obtener_categorias r = manejadores (peticion r)"

definition obtener_perfil :: "reply \<Rightarrow> outcome" where
  "obtener_perfil r = manejadores (peticion r)"

definition obtener_notificaciones :: "reply \<Rightarrow> outcome" where
  "obtener_notificaciones r = manejadores (peticion r)"

text \<open>The task created for each name, and the waits of a run with every settled task's
  outcome worked out from what the server did with its request.\<close>

fun crear_tarea :: "(json \<Rightarrow> bool) \<Rightarrow> endpoint \<Rightarrow> reply \<Rightarrow> outcome" where
  "crear_tarea valida Productos r = listar_productos valida r"
| "crear_tarea valida Categorias r = obtener_categorias r"
| "crear_tarea valida Perfil r = obtener_perfil r"
| "crear_tarea valida Notificaciones r = obtener_notificaciones r"

type_synonym reply_wait = "(endpoint \<times> reply) list \<times> endpoint list"

definition settle :: "(json \<Rightarrow> bool) \<Rightarrow> reply_wait \<Rightarrow> wait_result" where
  "settle valida w = (map (\<lambda>x. (fst x, crear_tarea valida (fst x) (snd x))) (fst w), snd w)"

definition mark_settled :: "endpoint list \<Rightarrow> (endpoint \<Rightarrow> task_status) \<Rightarrow> endpoint \<Rightarrow> task_status" where
  "mark_settled ns ts = (\<lambda>t. if t \<in> set ns then Settled else ts t)"

section \<open>Cancellation cascade\<close>

text \<open>\<^verbatim>\<open>cancel_remaining\<close>: \<^verbatim>\<open>tarea.cancel()\<close> on every task that is not done, counted.\<close>

fun cancel_remaining ::
  "endpoint list \<Rightarrow> (endpoint \<Rightarrow> task_status) \<Rightarrow> int \<times> (endpoint \<Rightarrow> task_status)" where
  "cancel_remaining [] ts = (0, ts)"
| "cancel_remaining (tarea # rest) ts =
     (if ts tarea \<noteq> Settled
      then (fst (cancel_remaining rest (ts(tarea := CancelRequested))) + 1,
            snd (cancel_remaining rest (ts(tarea := CancelRequested))))
      else cancel_remaining rest ts)"

record cancelacion = carga +
  canceladas_por_auth :: bool
  tareas :: "endpoint \<Rightarrow> task_status"

text \<open>The message for a task cancelled after an authorization failure; its accented
  letter is the two bytes \<open>C3 B3\<close> of UTF-8.\<close>

definition msg_cancelada_auth :: string where
  "msg_cancelada_auth = ''Cancelada por falta de autenticaci'' @ [CHR 0xC3, CHR 0xB3] @ ''n''"

text \<open>
  The \<^verbatim>\<open>for tarea in done\<close> loop of \<^verbatim>\<open>cargar_dashboard_con_cancelacion\<close>, with its three
  handlers in the order of the source; \<^verbatim>\<open>break\<close> ends the loop. An exception that no handler
  takes would leave the function (\<open>Inl\<close>).
\<close>

fun procesar_done ::
  "(endpoint \<times> outcome) list \<Rightarrow> endpoint list \<Rightarrow> cancelacion \<Rightarrow> exc_class + cancelacion" where
  "procesar_done [] pendientes st = Inr st"
| "procesar_done ((nombre, Result resultado) # rest) pendientes st =
     procesar_done rest pendientes (st\<lparr>datos := (datos st)(nombre := Some resultado)\<rparr>)"
| "procesar_done ((nombre, Raises cls msg) # rest) pendientes st =
     (if cls = NoAutorizado then
        (let st1 = st\<lparr>errores := errores st @
                      [\<lparr>endpoint = nombre, error = msg, cancelada = Some False\<rparr>]\<rparr>
         in if pendientes \<noteq> [] then
              Inr (st1\<lparr>tareas := snd (cancel_remaining pendientes (tareas st1)),
                      canceladas_por_auth := True,
                      errores := errores st1 @
                        map (\<lambda>t. \<lparr>endpoint = t, error = msg_cancelada_auth,
                                  cancelada = Some True\<rparr>) pendientes\<rparr>)
            else procesar_done rest pendientes st1)
      else if cls = CancelledError then
        procesar_done rest pendientes
          (st\<lparr>errores := errores st @
                [\<lparr>endpoint = nombre, error = ''Tarea cancelada'', cancelada = Some True\<rparr>]\<rparr>)
      else if is_Exception cls then
        procesar_done rest pendientes
          (st\<lparr>errores := errores st @
                [\<lparr>endpoint = nombre, error = msg, cancelada = Some False\<rparr>]\<rparr>)
      else Inl cls)"

text \<open>The \<^verbatim>\<open>while pendientes\<close> loop.\<close>

fun cancelacion_loop ::
  "wait_result list \<Rightarrow> endpoint list \<Rightarrow> cancelacion \<Rightarrow> (exc_class + cancelacion) option" where
  "cancelacion_loop waits [] st = Some (Inr st)"
| "cancelacion_loop [] (p # ps) st = None"
| "cancelacion_loop ((dones, pendientes) # waits) (p # ps) st =
     (case procesar_done dones pendientes
             (st\<lparr>tareas := mark_settled (map fst dones) (tareas st)\<rparr>) of
        Inl e \<Rightarrow> Some (Inl e)
      | Inr st' \<Rightarrow>
          if canceladas_por_auth st' then Some (Inr st')
          else cancelacion_loop waits pendientes st')"

text \<open>
  \<^verbatim>\<open>cargar_dashboard_con_cancelacion\<close>: the three tasks are \<^verbatim>\<open>listar_productos\<close>,
  \<^verbatim>\<open>obtener_categorias\<close> and \<^verbatim>\<open>obtener_perfil\<close>; a run is given, wait by wait, the tasks that
  settled with what the server did with their requests, and the tasks still pending.
\<close>

definition cargar_dashboard_con_cancelacion ::
  "(json \<Rightarrow> bool) \<Rightarrow> reply_wait list \<Rightarrow> (exc_class + cancelacion) option" where
  "cargar_dashboard_con_cancelacion valida waits =
     cancelacion_loop (map (settle valida) waits) [Productos, Categorias, Perfil]
       \<lparr>datos = (\<lambda>t. None), errores = [], canceladas_por_auth = False,
        tareas = (\<lambda>t. Pending)\<rparr>"

text \<open>All arrivals of a run, and the tasks among them that gave a result.\<close>

definition llegadas :: "wait_result list \<Rightarrow> (endpoint \<times> outcome) list" where
  "llegadas waits = concat (map fst waits)"

fun fatal :: "endpoint \<times> outcome \<Rightarrow> bool" where
  "fatal (t, Raises cls msg) = (cls = NoAutorizado)"
| "fatal (t, Result v) = False"

fun exitosa :: "endpoint \<times> outcome \<Rightarrow> bool" where
  "exitosa (t, Result v) = True"
| "exitosa (t, Raises cls msg) = False"

section \<open>Priority-tiered loading\<close>

record prioridad = carga +
  orden_llegada :: "endpoint list"
  criticas_completadas :: "endpoint set"
  tiempo_dashboard_parcial :: "real option"

definition tareas_criticas :: "endpoint set" where
  "tareas_criticas = {Productos, Perfil}"

text \<open>
  The \<^verbatim>\<open>for tarea in done\<close> loop of \<^verbatim>\<open>cargar_con_prioridad\<close>. Its only handler is
  \<^verbatim>\<open>except Exception\<close>, which does not take \<^verbatim>\<open>asyncio.CancelledError\<close>.
\<close>

fun procesar_llegadas ::
  "(nat \<Rightarrow> real) \<Rightarrow> real \<Rightarrow> (endpoint \<times> outcome) list \<Rightarrow> prioridad \<Rightarrow> clock
     \<Rightarrow> (exc_class + prioridad) \<times> clock" where
  "procesar_llegadas J inicio [] st clk = (Inr st, clk)"
| "procesar_llegadas J inicio ((nombre, Result resultado) # rest) st clk =
     (let st1 = st\<lparr>orden_llegada := orden_llegada st @ [nombre],
                   datos := (datos st)(nombre := Some resultado)\<rparr>
      in if nombre \<in> tareas_criticas then
           (let st2 = st1\<lparr>criticas_completadas := insert nombre (criticas_completadas st1)\<rparr>
            in if criticas_completadas st2 = tareas_criticas
                  \<and> tiempo_dashboard_parcial st2 = None
               then procesar_llegadas J inicio rest
                      (st2\<lparr>tiempo_dashboard_parcial := Some (fst (time_time J clk) - inicio)\<rparr>)
                      (snd (time_time J clk))
               else procesar_llegadas J inicio rest st2 clk)
         else procesar_llegadas J inicio rest st1 clk)"
| "procesar_llegadas J inicio ((nombre, Raises cls msg) # rest) st clk =
     (let st1 = st\<lparr>orden_llegada := orden_llegada st @ [nombre]\<rparr>
      in if is_Exception cls then
           procesar_llegadas J inicio rest
             (st1\<lparr>errores := errores st1 @
                    [\<lparr>endpoint = nombre, error = msg, cancelada = None\<rparr>]\<rparr>) clk
         else (Inl cls, clk))"

fun prioridad_loop ::
  "(nat \<Rightarrow> real) \<Rightarrow> real \<Rightarrow> wait_result list \<Rightarrow> endpoint list \<Rightarrow> prioridad \<Rightarrow> clock
     \<Rightarrow> ((exc_class + prioridad) \<times> clock) option" where
  "prioridad_loop J inicio waits [] st clk = Some (Inr st, clk)"
| "prioridad_loop J inicio [] (p # ps) st clk = None"
| "prioridad_loop J inicio ((dones, pendientes) # waits) (p # ps) st clk =
     (case procesar_llegadas J inicio dones st clk of
        (Inl e, clk') \<Rightarrow> Some (Inl e, clk')
      | (Inr st', clk') \<Rightarrow> prioridad_loop J inicio waits pendientes st' clk')"

record prioridad_report =
  criticas_completas :: bool
  tiempo_parcial :: "real option"
  datos_r :: "endpoint \<Rightarrow> json option"
  errores_r :: "error_entry list"
  orden_r :: "endpoint list"

definition cargar_con_prioridad ::
  "(nat \<Rightarrow> real) \<Rightarrow> wait_result list \<Rightarrow> clock
     \<Rightarrow> ((exc_class + prioridad_report) \<times> clock) option" where
  "cargar_con_prioridad J waits clk =
     (case prioridad_loop J (fst (time_time J clk)) waits
             [Productos, Categorias, Perfil, Notificaciones]
             \<lparr>datos = (\<lambda>t. None), errores = [], orden_llegada = [],
              criticas_completadas = {}, tiempo_dashboard_parcial = None\<rparr>
             (snd (time_time J clk)) of
        None \<Rightarrow> None
      | Some (Inl e, clk') \<Rightarrow> Some (Inl e, clk')
      | Some (Inr st, clk') \<Rightarrow>
          Some (Inr \<lparr>criticas_completas = (card (criticas_completadas st) = card tareas_criticas),
                     tiempo_parcial = tiempo_dashboard_parcial st,
                     datos_r = datos st, errores_r = errores st,
                     orden_r = orden_llegada st\<rparr>, clk'))"

section \<open>ConnectionPoolStats\<close>

record ConnectionPoolStats =
  connections_created :: int
  connections_reused :: int
  connections_closed :: int
  acquisition_times :: "real list"
  start_time :: real

definition get_average_acquisition_time :: "ConnectionPoolStats \<Rightarrow> real" where
  "get_average_acquisition_time s =
     (if acquisition_times s = [] then 0
      else sum_list (acquisition_times s) / real (length (acquisition_times s)))"

definition get_uptime :: "(nat \<Rightarrow> real) \<Rightarrow> ConnectionPoolStats \<Rightarrow> clock \<Rightarrow> real \<times> clock" where
  "get_uptime J s clk = (fst (time_time J clk) - start_time s, snd (time_time J clk))"

text \<open>\<^verbatim>\<open>round(x, 2)\<close>: to the nearest hundredth, a tie going to the even neighbour.\<close>

definition round_half_even :: "real \<Rightarrow> int" where
  "round_half_even y =
     (if y - real_of_int \<lfloor>y\<rfloor> < 1 / 2 then \<lfloor>y\<rfloor>
      else if y - real_of_int \<lfloor>y\<rfloor> > 1 / 2 then \<lfloor>y\<rfloor> + 1
      else if even \<lfloor>y\<rfloor> then \<lfloor>y\<rfloor> else \<lfloor>y\<rfloor> + 1)"

definition py_round2 :: "real \<Rightarrow> real" where
  "py_round2 x = real_of_int (round_half_even (x * 100)) / 100"

record pool_dict =
  created :: int
  reused :: int
  closed :: int
  avg_acquisition_ms :: real
  uptime_sec :: real

definition to_dict ::
  "(nat \<Rightarrow> real) \<Rightarrow> ConnectionPoolStats \<Rightarrow> clock \<Rightarrow> pool_dict \<times> ConnectionPoolStats \<times> clock" where
  "to_dict J s clk =
     (\<lparr>created = connections_created s,
       reused = connections_reused s,
       closed = connections_closed s,
       avg_acquisition_ms = py_round2 (get_average_acquisition_time s * 1000),
       uptime_sec = py_round2 (fst (get_uptime J s clk))\<rparr>,
      s, snd (get_uptime J s clk))"

section \<open>Sample environments and predicates used in the statements\<close>

definition bucket_ok :: "TokenBucket \<Rightarrow> bool" where
  "bucket_ok b \<longleftrightarrow> 0 \<le> tokens b \<and> tokens b \<le> real_of_int (max_tokens b)"

definition clock0 :: clock where
  "clock0 = \<lparr>now = 0, reads = 0, slept = []\<rparr>"

text \<open>A clock that does not move, one that moves a millisecond before its third read, and
  one that moves a second before every read.\<close>

definition still_clock :: "nat \<Rightarrow> real" where
  "still_clock k = 0"

definition late_clock :: "nat \<Rightarrow> real" where
  "late_clock k = (if k = 2 then 1 / 1000 else 0)"

definition ticking_clock :: "nat \<Rightarrow> real" where
  "ticking_clock k = 1"

text \<open>
  Bookkeeping for the limiter: whether a task at a given statement holds a permit, and
  whether it has been counted in \<open>in_flight\<close> (between the increment and the decrement).
\<close>

fun holds_permit :: "pc \<Rightarrow> int" where
  "holds_permit Entering = 0"
| "holds_permit (Finished x) = 0"
| "holds_permit _ = 1"

fun counted :: "pc \<Rightarrow> int" where
  "counted Running = 1"
| "counted (Leaving x) = 1"
| "counted _ = 0"

definition in_body :: "pc \<Rightarrow> bool" where
  "in_body p \<longleftrightarrow> counted p = 1"

definition limiter_inv :: "limiter_system \<Rightarrow> bool" where
  "limiter_inv s \<longleftrightarrow>
     0 \<le> semaphore (snd s)
     \<and> semaphore (snd s) = max_concurrent (snd s) - sum_list (map holds_permit (fst s))
     \<and> in_flight (snd s) = sum_list (map counted (fst s))"

text \<open>The way out of the scope: the body ends with \<open>r\<close>, then the two statements of
  \<^verbatim>\<open>__aexit__\<close> run.\<close>

definition exit_path :: "exc_class option \<Rightarrow> ConcurrencyLimiter \<Rightarrow> pc \<times> ConcurrencyLimiter" where
  "exit_path r l =
     (let s1 = limiter_step r Running l;
          s2 = limiter_step r (fst s1) (snd s1)
      in limiter_step r (fst s2) (snd s2))"

definition sample_schedule :: "(nat \<times> exc_class option) list" where
  "sample_schedule =
     [(0, None), (1, None), (0, None), (1, None), (2, None), (0, Some ServerError),
      (0, None), (0, None), (2, None)]"

text \<open>The client \<^verbatim>\<open>ThrottledClient(10, 20)\<close> built when the clock reads 0.\<close>

definition client0 :: ThrottledClient where
  "client0 =
     \<lparr>concurrency_limiter = \<lparr>max_concurrent = 10, semaphore = 10, in_flight = 0\<rparr>,
      rate_limiter = RateLimiter_init 20 0, metrics = metrics0\<rparr>"

text \<open>Two consecutive reads of the pool statistics, nothing else happening in between, and a
  sample of statistics.\<close>

definition to_dict_twice ::
  "(nat \<Rightarrow> real) \<Rightarrow> ConnectionPoolStats \<Rightarrow> clock \<Rightarrow> pool_dict \<times> pool_dict" where
  "to_dict_twice J s clk =
     (fst (to_dict J s clk),
      fst (to_dict J (fst (snd (to_dict J s clk))) (snd (snd (to_dict J s clk)))))"

definition stats0 :: ConnectionPoolStats where
  "stats0 = \<lparr>connections_created = 3, connections_reused = 5, connections_closed = 1,
             acquisition_times = [1 / 100, 3 / 100], start_time = 0\<rparr>"

text \<open>The entry reported for a task cancelled by the cascade, the dictionary that
  \<^verbatim>\<open>cargar_dashboard_con_cancelacion\<close> returns, the state of its three tasks, and a sample
  run: the server answers the request of \<open>Perfil\<close> with 401 while \<open>Productos\<close> and
  \<open>Categorias\<close> are still pending; these then arrive with an empty list each.\<close>

definition cancel_entry :: "endpoint \<Rightarrow> error_entry" where
  "cancel_entry t = \<lparr>endpoint = t, error = msg_cancelada_auth, cancelada = Some True\<rparr>"

definition informe :: "cancelacion \<Rightarrow> (endpoint \<Rightarrow> json option) \<times> error_entry list \<times> bool" where
  "informe st = (datos st, errores st, canceladas_por_auth st)"

definition estados :: "cancelacion \<Rightarrow> task_status list" where
  "estados st = map (tareas st) [Productos, Categorias, Perfil]"

definition sample_lista_valida :: "json \<Rightarrow> bool" where
  "sample_lista_valida d \<longleftrightarrow> d = ''[]''"

definition sample_cascade :: "reply_wait list" where
  "sample_cascade =
     [([(Perfil, Reply 401 ''application/json'' (Inr ''{}''))], [Productos, Categorias]),
      ([(Productos, Reply 200 ''application/json'' (Inr ''[]''))], [Categorias]),
      ([(Categorias, Reply 200 ''application/json'' (Inr ''[]''))], [])]"

text \<open>
  For the priority run: the invariant that links \<open>tiempo_dashboard_parcial\<close> to
  \<open>criticas_completadas\<close>, the tasks that arrived with a result, the empty \<open>datos\<close>, and two
  sample runs (in the second the critical \<open>Perfil\<close> fails with a server error).
\<close>

definition pinv :: "prioridad \<Rightarrow> bool" where
  "pinv st \<longleftrightarrow> criticas_completadas st \<subseteq> tareas_criticas
     \<and> (tiempo_dashboard_parcial st \<noteq> None \<longleftrightarrow> criticas_completadas st = tareas_criticas)"

definition exitosas :: "(endpoint \<times> outcome) list \<Rightarrow> endpoint set" where
  "exitosas ds = fst ` set (filter exitosa ds)"

definition sin_datos :: "endpoint \<Rightarrow> json option" where
  "sin_datos = (\<lambda>t. None)"

definition sample_prioridad :: "wait_result list" where
  "sample_prioridad =
     [([(Perfil, Result ''{}'')], [Productos, Categorias, Notificaciones]),
      ([(Productos, Result ''[]'')], [Categorias, Notificaciones]),
      ([(Categorias, Result ''[]''), (Notificaciones, Result ''[]'')], [])]"

definition sample_prioridad_falla :: "wait_result list" where
  "sample_prioridad_falla =
     [([(Perfil, Raises ServerError ''Error del servidor: 500'')],
       [Productos, Categorias, Notificaciones]),
      ([(Productos, Result ''[]'')], [Categorias, Notificaciones]),
      ([(Categorias, Result ''[]''), (Notificaciones, Result ''[]'')], [])]"






section \<open>TokenBucket: the invariant\<close>

lemma time_time_simps [simp]:
  "fst (time_time J clk) = now clk + J (reads clk)"
  "now (snd (time_time J clk)) = now clk + J (reads clk)"
  "reads (snd (time_time J clk)) = Suc (reads clk)"
  "slept (snd (time_time J clk)) = slept clk"
  by (simp_all add: time_time_def)

lemma asyncio_sleep_simps [simp]:
  "now (asyncio_sleep d clk) = now clk + max 0 d"
  "reads (asyncio_sleep d clk) = reads clk"
  "slept (asyncio_sleep d clk) = slept clk @ [d]"
  by (simp_all add: asyncio_sleep_def)

lemma refill_tokens_ok:
  assumes "bucket_ok b" "0 \<le> tokens_per_second b" "last_refill b \<le> t"
  shows "bucket_ok (refill_tokens t b)"
  using assms by (simp add: bucket_ok_def refill_tokens_def Let_def)

lemma stamp_refill_ok: "bucket_ok b \<Longrightarrow> bucket_ok (stamp_refill t b)"
  by (simp add: bucket_ok_def stamp_refill_def)

lemma pass_end_ok:
  assumes "bucket_ok b" "0 \<le> tokens_per_second b" "last_refill b \<le> t"
  shows "bucket_ok (pass_end t b)"
proof -
  have "bucket_ok (stamp_refill t (refill_tokens t b))"
    using assms by (intro stamp_refill_ok refill_tokens_ok)
  then show ?thesis
    by (auto simp: pass_end_def Let_def bucket_ok_def take_token_def)
qed

lemma pass_end_frame [simp]:
  "max_tokens (pass_end t b) = max_tokens b"
  "tokens_per_second (pass_end t b) = tokens_per_second b"
  "last_refill (pass_end t b) = t"
  by (simp_all add: pass_end_def Let_def take_token_def stamp_refill_def refill_tokens_def)

lemma pass_states_ok:
  assumes "bucket_ok b" "0 \<le> tokens_per_second b" "last_refill b \<le> t"
    and "s \<in> set (pass_states t b)"
  shows "bucket_ok s \<and> max_tokens s = max_tokens b"
  using assms pass_end_ok[OF assms(1-3)] refill_tokens_ok[OF assms(1-3)]
  by (auto simp: pass_states_def stamp_refill_ok)
     (simp_all add: stamp_refill_def refill_tokens_def Let_def)

lemma observe_ok:
  assumes "bucket_ok b" "0 \<le> tokens_per_second b" "sorted (last_refill b # ts)"
    and "s \<in> set (observe ts b)"
  shows "bucket_ok s \<and> max_tokens s = max_tokens b \<and> tokens_per_second s = tokens_per_second b
         \<and> (ts \<noteq> [] \<longrightarrow> last_refill s \<le> last ts)"
  using assms
proof (induction ts arbitrary: b)
  case Nil
  then show ?case by simp
next
  case (Cons t ts)
  have le: "last_refill b \<le> t" using Cons.prems(3) by simp
  from Cons.prems(4) consider "s \<in> set (pass_states t b)" | "s \<in> set (observe ts (pass_end t b))"
    by auto
  then show ?case
  proof cases
    case 1
    have "last_refill s \<le> t"
      using 1 le by (auto simp: pass_states_def stamp_refill_def refill_tokens_def Let_def)
    moreover have "t \<le> last (t # ts)"
      using Cons.prems(3) by (cases ts) (auto simp: last_conv_nth)
    moreover have "tokens_per_second s = tokens_per_second b"
      using 1 by (auto simp: pass_states_def stamp_refill_def refill_tokens_def Let_def)
    ultimately show ?thesis using pass_states_ok[OF Cons.prems(1,2) le 1] by simp
  next
    case 2
    have "bucket_ok s \<and> max_tokens s = max_tokens (pass_end t b)
          \<and> tokens_per_second s = tokens_per_second (pass_end t b)
          \<and> (ts \<noteq> [] \<longrightarrow> last_refill s \<le> last ts)"
    proof (rule Cons.IH[OF _ _ _ 2])
      show "bucket_ok (pass_end t b)" by (rule pass_end_ok[OF Cons.prems(1,2) le])
      show "0 \<le> tokens_per_second (pass_end t b)" using Cons.prems(2) by simp
      show "sorted (last_refill (pass_end t b) # ts)" using Cons.prems(3) by simp
    qed
    moreover have "ts \<noteq> []" using 2 by auto
    ultimately show ?thesis by simp
  qed
qed

lemma post_init_ok: "0 \<le> mt \<Longrightarrow> bucket_ok (post_init mt tps t)"
  by (simp add: bucket_ok_def post_init_def)

text \<open>The loop of \<^verbatim>\<open>acquire\<close>, one iteration unfolded, in terms of \<open>pass_end\<close>.\<close>

lemma acquire_loop_Suc:
  "acquire_loop J (Suc n) i0 b clk =
     (if tokens (stamp_refill (fst (time_time J clk)) (refill_tokens (fst (time_time J clk)) b)) \<ge> 1
      then Some (Inr (fst (time_time J (snd (time_time J clk))) - i0),
                 pass_end (fst (time_time J clk)) b,
                 snd (time_time J (snd (time_time J clk))))
      else if tokens_per_second b = 0
        then Some (Inl ZeroDivisionError, pass_end (fst (time_time J clk)) b, snd (time_time J clk))
      else acquire_loop J n i0 (pass_end (fst (time_time J clk)) b)
             (asyncio_sleep ((1 - tokens (pass_end (fst (time_time J clk)) b)) / tokens_per_second b)
                (snd (time_time J clk))))"
  by (simp add: Let_def pass_end_def stamp_refill_def refill_tokens_def del: time_time_simps)

lemma acquire_loop_ok:
  assumes "acquire_loop J n i0 b clk = Some (r, b', clk')"
    and "bucket_ok b" "0 \<le> tokens_per_second b" "last_refill b \<le> now clk" "\<forall>k. 0 \<le> J k"
  shows "bucket_ok b' \<and> max_tokens b' = max_tokens b \<and> tokens_per_second b' = tokens_per_second b
         \<and> last_refill b' \<le> now clk'"
  using assms
proof (induction n arbitrary: b clk)
  case 0
  then show ?case by simp
next
  case (Suc n)
  let ?t = "fst (time_time J clk)"
  have le: "last_refill b \<le> ?t" using Suc.prems(4,5) by (simp add: add_increasing2)
  have ok: "bucket_ok (pass_end ?t b)" by (rule pass_end_ok[OF Suc.prems(2,3) le])
  have J0: "\<And>k. 0 \<le> J k" using Suc.prems(5) by simp
  show ?case
  proof (cases "tokens (stamp_refill ?t (refill_tokens ?t b)) \<ge> 1")
    case True
    with Suc.prems(1) have "b' = pass_end ?t b" "clk' = snd (time_time J (snd (time_time J clk)))"
      by (simp_all add: acquire_loop_Suc del: acquire_loop.simps time_time_simps)
    then show ?thesis using ok J0 by simp
  next
    case False
    show ?thesis
    proof (cases "tokens_per_second b = 0")
      case True
      with False Suc.prems(1) have "b' = pass_end ?t b" "clk' = snd (time_time J clk)"
        by (simp_all add: acquire_loop_Suc del: acquire_loop.simps time_time_simps)
      then show ?thesis using ok by simp
    next
      case nz: False
      let ?clk2 = "asyncio_sleep ((1 - tokens (pass_end ?t b)) / tokens_per_second b)
                     (snd (time_time J clk))"
      from False nz Suc.prems(1)
      have rec: "acquire_loop J n i0 (pass_end ?t b) ?clk2 = Some (r, b', clk')"
        by (simp add: acquire_loop_Suc del: acquire_loop.simps time_time_simps)
      have "bucket_ok b' \<and> max_tokens b' = max_tokens (pass_end ?t b)
            \<and> tokens_per_second b' = tokens_per_second (pass_end ?t b) \<and> last_refill b' \<le> now clk'"
      proof (rule Suc.IH[OF rec ok])
        show "0 \<le> tokens_per_second (pass_end ?t b)" using Suc.prems(3) by simp
        show "last_refill (pass_end ?t b) \<le> now ?clk2" by simp
        show "\<forall>k. 0 \<le> J k" by (rule Suc.prems(5))
      qed
      then show ?thesis by simp
    qed
  qed
qed

lemma acquire_ok:
  assumes "acquire J n b clk = Some (r, b', clk')"
    and "bucket_ok b" "0 \<le> tokens_per_second b" "last_refill b \<le> now clk" "\<forall>k. 0 \<le> J k"
  shows "bucket_ok b' \<and> max_tokens b' = max_tokens b \<and> tokens_per_second b' = tokens_per_second b
         \<and> last_refill b' \<le> now clk'"
proof (rule acquire_loop_ok)
  show "acquire_loop J n (fst (time_time J clk)) b (snd (time_time J clk)) = Some (r, b', clk')"
    using assms(1) by (simp only: acquire_def)
  show "last_refill b \<le> now (snd (time_time J clk))"
    using assms(4,5) by (simp add: add_increasing2)
qed (use assms in auto)

text \<open>
  Claim C4, counterexample: the code checks neither the capacity nor the rate, and reads the
  wall clock. A bucket built with capacity \<open>-1\<close>, as \<^verbatim>\<open>RateLimiter(-1.5)\<close> builds it, starts
  with \<open>-1\<close> tokens; a bucket of capacity 1 with rate \<open>-1\<close> has \<open>-1\<close> tokens after the refill
  of a pass at time 2; and a bucket of capacity 1 and rate 1 that grants its token in a pass
  at time 0 has \<open>-1\<close> tokens after the refill of a pass for which the clock reads \<open>-1\<close>.
\<close>

theorem token_bucket_invariant_counterexample:
  "tokens (post_init (- 1) 2 0) = - 1
   \<and> bucket (RateLimiter_init (- 3 / 2) 0) = post_init (- 1) (- 3 / 2) 0
   \<and> tokens (bucket (RateLimiter_init (- 3 / 2) 0)) < 0
   \<and> list_ex (\<lambda>s. tokens s = - 1) (observe [2] (post_init 1 (- 1) 0))
   \<and> list_ex (\<lambda>s. tokens s = - 1) (observe [0, - 1] (post_init 1 1 0))"
proof -
  have "\<lceil>- 3 / 2 :: real\<rceil> = - 1" by (simp add: ceiling_eq_iff)
  then have "py_int (- 3 / 2) = - 1" by (simp add: py_int_def)
  then show ?thesis
    by (simp add: RateLimiter_init_def post_init_def pass_states_def pass_end_def
          refill_tokens_def stamp_refill_def take_token_def Let_def)
qed

text \<open>
  Claim C4, as amended. With a capacity and a refill rate that are not negative and clock readings that
  do not go backwards, the token count stays between 0 and the capacity at every
  observation point: after construction, after each write of every pass of the loop of
  \<^verbatim>\<open>acquire\<close> (whichever caller runs it), and in the bucket that any \<^verbatim>\<open>acquire\<close> call
  started from such a state hands back.
\<close>

theorem token_bucket_invariant:
  assumes "0 \<le> mt" "0 \<le> tps" "sorted (t0 # ts)"
  shows "(\<forall>s \<in> set (post_init mt tps t0 # observe ts (post_init mt tps t0)).
            0 \<le> tokens s \<and> tokens s \<le> real_of_int mt \<and> max_tokens s = mt)
       \<and> (\<forall>s \<in> set (post_init mt tps t0 # observe ts (post_init mt tps t0)).
            \<forall>J n clk r b' clk'.
              (\<forall>k. 0 \<le> J k) \<and> last_refill s \<le> now clk \<and> acquire J n s clk = Some (r, b', clk')
              \<longrightarrow> 0 \<le> tokens b' \<and> tokens b' \<le> real_of_int mt \<and> max_tokens b' = mt)"
proof -
  let ?b0 = "post_init mt tps t0"
  have ok0: "bucket_ok ?b0" by (rule post_init_ok[OF assms(1)])
  have all: "bucket_ok s \<and> max_tokens s = mt \<and> tokens_per_second s = tps"
    if "s \<in> set (?b0 # observe ts ?b0)" for s
  proof (cases "s = ?b0")
    case True
    then show ?thesis using ok0 by (simp add: post_init_def)
  next
    case False
    with that have "s \<in> set (observe ts ?b0)" by simp
    from observe_ok[OF ok0 _ _ this] assms(2,3)
    show ?thesis by (simp add: post_init_def)
  qed
  have first: "\<forall>s \<in> set (?b0 # observe ts ?b0).
      0 \<le> tokens s \<and> tokens s \<le> real_of_int mt \<and> max_tokens s = mt"
  proof (rule ballI)
    fix s assume "s \<in> set (?b0 # observe ts ?b0)"
    from all[OF this] show "0 \<le> tokens s \<and> tokens s \<le> real_of_int mt \<and> max_tokens s = mt"
      by (simp add: bucket_ok_def)
  qed
  have second: "0 \<le> tokens b' \<and> tokens b' \<le> real_of_int mt \<and> max_tokens b' = mt"
    if "s \<in> set (?b0 # observe ts ?b0)" "\<forall>k. 0 \<le> J k" "last_refill s \<le> now clk"
      "acquire J n s clk = Some (r, b', clk')" for s J n clk r b' clk'
  proof -
    from all[OF that(1)] assms(2)
    have "bucket_ok s" "max_tokens s = mt" "0 \<le> tokens_per_second s" by simp_all
    from acquire_ok[OF that(4) this(1,3) that(3,2)] this(2)
    show ?thesis by (simp add: bucket_ok_def)
  qed
  have third: "\<forall>s \<in> set (?b0 # observe ts ?b0).
            \<forall>J n clk r b' clk'.
              (\<forall>k. 0 \<le> J k) \<and> last_refill s \<le> now clk \<and> acquire J n s clk = Some (r, b', clk')
              \<longrightarrow> 0 \<le> tokens b' \<and> tokens b' \<le> real_of_int mt \<and> max_tokens b' = mt"
  proof (intro ballI allI impI)
    fix s J n clk r b' clk'
    assume a: "s \<in> set (?b0 # observe ts ?b0)"
      and b: "(\<forall>k. 0 \<le> J k) \<and> last_refill s \<le> now clk \<and> acquire J n s clk = Some (r, b', clk')"
    show "0 \<le> tokens b' \<and> tokens b' \<le> real_of_int mt \<and> max_tokens b' = mt"
      using second[OF a, of J clk n r b' clk'] b by blast
  qed
  show ?thesis by (rule conjI[OF first third])
qed

lemma observe_sample:
  "observe [0, 1 / 10] (post_init 1 2 0) =
    [\<lparr>max_tokens = 1, tokens_per_second = 2, tokens = 1, last_refill = 0\<rparr>,
     \<lparr>max_tokens = 1, tokens_per_second = 2, tokens = 1, last_refill = 0\<rparr>,
     \<lparr>max_tokens = 1, tokens_per_second = 2, tokens = 0, last_refill = 0\<rparr>,
     \<lparr>max_tokens = 1, tokens_per_second = 2, tokens = 1 / 5, last_refill = 0\<rparr>,
     \<lparr>max_tokens = 1, tokens_per_second = 2, tokens = 1 / 5, last_refill = 1 / 10\<rparr>,
     \<lparr>max_tokens = 1, tokens_per_second = 2, tokens = 1 / 5, last_refill = 1 / 10\<rparr>]"
  by (simp add: pass_states_def pass_end_def post_init_def refill_tokens_def stamp_refill_def
        take_token_def Let_def)

text \<open>Claim C4, witness: a bucket of capacity 1 refilled at 2 tokens per second, observed over
  passes at times 0 and 1/10.\<close>

theorem token_bucket_invariant_witness:
  "(0::int) \<le> 1 \<and> (0::real) \<le> 2 \<and> sorted [0::real, 0, 1 / 10]
   \<and> \<lparr>max_tokens = 1, tokens_per_second = 2, tokens = 1 / 5, last_refill = 1 / 10\<rparr>
        \<in> set (post_init 1 2 0 # observe [0, 1 / 10] (post_init 1 2 0))
   \<and> list_all (\<lambda>s. 0 \<le> tokens s \<and> tokens s \<le> 1 \<and> max_tokens s = 1)
        (post_init 1 2 0 # observe [0, 1 / 10] (post_init 1 2 0))"
proof -
  have h: "(0::int) \<le> 1" "(0::real) \<le> 2" "sorted [0::real, 0, 1 / 10]" by simp_all
  have m: "\<lparr>max_tokens = 1, tokens_per_second = 2, tokens = 1 / 5, last_refill = 1 / 10\<rparr>
        \<in> set (post_init 1 2 0 # observe [0, 1 / 10] (post_init 1 2 0))"
    by (simp only: observe_sample) simp
  from token_bucket_invariant[OF h] have
    "\<forall>s \<in> set (post_init 1 2 0 # observe [0, 1 / 10] (post_init 1 2 0)).
         0 \<le> tokens s \<and> tokens s \<le> real_of_int 1 \<and> max_tokens s = 1"
    by (rule conjunct1)
  then have "list_all (\<lambda>s. 0 \<le> tokens s \<and> tokens s \<le> 1 \<and> max_tokens s = 1)
        (post_init 1 2 0 # observe [0, 1 / 10] (post_init 1 2 0))"
    by (simp only: of_int_1 list_all_iff)
  with h m show ?thesis by (intro conjI)
qed

section \<open>TokenBucket: the algorithm of acquire\<close>

lemma acquire_loop_wait:
  assumes "acquire_loop J n i0 b clk = Some (Inr w, b', clk')"
  shows "w = now clk' - i0"
  using assms
proof (induction n arbitrary: b clk)
  case 0
  then show ?case by simp
next
  case (Suc n)
  then show ?case
    by (auto simp add: acquire_loop_Suc simp del: acquire_loop.simps split: if_splits)
qed

lemma acquire_step_spec:
  "acquire_loop J (Suc n) i0 b clk =
     (case spec_acquire_step (fst (time_time J clk)) b of
        Grant_wait0 b' \<Rightarrow>
          Some (Inr (fst (time_time J (snd (time_time J clk))) - i0), b',
                snd (time_time J (snd (time_time J clk))))
      | Suspend d b' \<Rightarrow>
          if tokens_per_second b = 0
          then Some (Inl ZeroDivisionError, b', snd (time_time J clk))
          else acquire_loop J n i0 b' (asyncio_sleep d (snd (time_time J clk))))"
  by (simp add: Let_def spec_acquire_step_def stamp_refill_def refill_tokens_def take_token_def
           del: time_time_simps)

lemma acquire_late_value:
  "acquire late_clock 1 (post_init 1 2 0) clock0 =
   Some (Inr (1 / 1000),
         \<lparr>max_tokens = 1, tokens_per_second = 2, tokens = 0, last_refill = 0\<rparr>,
         \<lparr>now = 1 / 1000, reads = 3, slept = []\<rparr>)"
  by (simp add: acquire_def late_clock_def post_init_def clock0_def time_time_def
        stamp_refill_def refill_tokens_def take_token_def Let_def)

text \<open>
  Claim C3, counterexample. A full bucket grants at once and nothing sleeps, yet the value
  returned is not 0: it is \<^verbatim>\<open>time.time() - inicio_espera\<close>, here the millisecond that went by
  between the reads of the clock.
\<close>

theorem acquire_wait_counterexample:
  "acquire late_clock 1 (post_init 1 2 0) clock0 =
     Some (Inr (1 / 1000),
           \<lparr>max_tokens = 1, tokens_per_second = 2, tokens = 0, last_refill = 0\<rparr>,
           \<lparr>now = 1 / 1000, reads = 3, slept = []\<rparr>)
   \<and> (1 / 1000 :: real) \<noteq> 0"
  using acquire_late_value by simp

text \<open>
  Claim C3, as amended. \<^verbatim>\<open>acquire\<close> reads the clock once on entry and then loops; each
  iteration is one check of the specified algorithm (refill to
  \<open>min capacity (tokens + elapsed * rate)\<close>, time stamp, grant and decrement when at least one
  token is there, otherwise sleep \<open>(1 - tokens) / rate\<close> and run the whole check again; a zero
  rate raises). The wait it returns is the clock reading on return minus the reading on
  entry, so it is 0 only when the clock has not moved in between.
\<close>

theorem acquire_follows_algorithm:
  "acquire J n b clk = acquire_loop J n (fst (time_time J clk)) b (snd (time_time J clk))
   \<and> acquire_loop J (Suc n) i0 b clk =
       (case spec_acquire_step (fst (time_time J clk)) b of
          Grant_wait0 b' \<Rightarrow>
            Some (Inr (fst (time_time J (snd (time_time J clk))) - i0), b',
                  snd (time_time J (snd (time_time J clk))))
        | Suspend d b' \<Rightarrow>
            if tokens_per_second b = 0
            then Some (Inl ZeroDivisionError, b', snd (time_time J clk))
            else acquire_loop J n i0 b' (asyncio_sleep d (snd (time_time J clk))))
   \<and> (\<forall>w b' clk'. acquire J n b clk = Some (Inr w, b', clk')
         \<longrightarrow> w = now clk' - fst (time_time J clk))"
proof (intro conjI allI impI)
  show "acquire J n b clk = acquire_loop J n (fst (time_time J clk)) b (snd (time_time J clk))"
    by (simp only: acquire_def)
  show "acquire_loop J (Suc n) i0 b clk =
       (case spec_acquire_step (fst (time_time J clk)) b of
          Grant_wait0 b' \<Rightarrow>
            Some (Inr (fst (time_time J (snd (time_time J clk))) - i0), b',
                  snd (time_time J (snd (time_time J clk))))
        | Suspend d b' \<Rightarrow>
            if tokens_per_second b = 0
            then Some (Inl ZeroDivisionError, b', snd (time_time J clk))
            else acquire_loop J n i0 b' (asyncio_sleep d (snd (time_time J clk))))"
    by (rule acquire_step_spec)
next
  fix w b' clk'
  assume "acquire J n b clk = Some (Inr w, b', clk')"
  then have "acquire_loop J n (fst (time_time J clk)) b (snd (time_time J clk)) = Some (Inr w, b', clk')"
    by (simp only: acquire_def)
  then show "w = now clk' - fst (time_time J clk)" by (rule acquire_loop_wait)
qed

text \<open>Claim C3, witness: the call of the counterexample returns the millisecond measured.\<close>

theorem acquire_follows_algorithm_witness:
  "acquire late_clock 1 (post_init 1 2 0) clock0 =
     Some (Inr (1 / 1000),
           \<lparr>max_tokens = 1, tokens_per_second = 2, tokens = 0, last_refill = 0\<rparr>,
           \<lparr>now = 1 / 1000, reads = 3, slept = []\<rparr>)
   \<and> (1 / 1000 :: real) =
       now \<lparr>now = 1 / 1000, reads = 3, slept = []\<rparr> - fst (time_time late_clock clock0)"
proof -
  have "\<forall>w b' clk'. acquire late_clock 1 (post_init 1 2 0) clock0 = Some (Inr w, b', clk')
         \<longrightarrow> w = now clk' - fst (time_time late_clock clock0)"
    using acquire_follows_algorithm[of late_clock 1 "post_init 1 2 0" clock0 0] by blast
  with acquire_late_value show ?thesis by blast
qed

section \<open>RateLimiter: a rate below one request per second\<close>







section \<open>ConcurrencyLimiter: the invariant\<close>

lemma sum_list_map_update:
  fixes f :: "'a \<Rightarrow> int"
  assumes "i < length xs"
  shows "sum_list (map f (xs[i := v])) = sum_list (map f xs) - f (xs ! i) + f v"
  using assms
proof (induction xs arbitrary: i)
  case Nil
  then show ?case by simp
next
  case (Cons x xs)
  then show ?case by (cases i) simp_all
qed

lemma counted_le_holds: "counted p \<le> holds_permit p"
  by (cases p) simp_all

lemma counted_nonneg: "0 \<le> counted p"
  by (cases p) simp_all

lemma sum_counted_bounds:
  "0 \<le> sum_list (map counted pcs) \<and> sum_list (map counted pcs) \<le> sum_list (map holds_permit pcs)"
proof (induction pcs)
  case Nil
  then show ?case by simp
next
  case (Cons p pcs)
  then show ?case using counted_le_holds[of p] counted_nonneg[of p] by simp
qed

lemma limiter_step_max [simp]: "max_concurrent (snd (limiter_step r p l)) = max_concurrent l"
  by (cases p) simp_all

lemma sched_step_inv:
  assumes "limiter_inv s"
  shows "limiter_inv (sched_step e s)"
proof -
  obtain i r where e: "e = (i, r)" by (cases e)
  obtain pcs l where s: "s = (pcs, l)" by (cases s)
  show ?thesis
  proof (cases "i < length pcs")
    case False
    then show ?thesis using assms e s by simp
  next
    case True
    show ?thesis
      using assms True unfolding e s
      by (cases "pcs ! i") (simp_all add: limiter_inv_def sum_list_map_update)
  qed
qed

lemma sched_step_max: "max_concurrent (snd (sched_step e s)) = max_concurrent (snd s)"
  by (cases e; cases s) simp

lemma limiter_trace_inv:
  assumes "limiter_inv s" "x \<in> set (limiter_trace es s)"
  shows "limiter_inv x \<and> max_concurrent (snd x) = max_concurrent (snd s)"
  using assms
proof (induction es arbitrary: s)
  case Nil
  then show ?case by simp
next
  case (Cons e es)
  from Cons.prems(2) consider "x = s" | "x \<in> set (limiter_trace es (sched_step e s))" by auto
  then show ?case
  proof cases
    case 1
    then show ?thesis using Cons.prems(1) by simp
  next
    case 2
    from Cons.IH[OF sched_step_inv[OF Cons.prems(1)] 2] show ?thesis
      by (simp add: sched_step_max)
  qed
qed

lemma limiter_inv_bounds:
  assumes "limiter_inv s"
  shows "0 \<le> in_flight (snd s) \<and> in_flight (snd s) \<le> max_concurrent (snd s)"
  using assms sum_counted_bounds[of "fst s"] by (simp add: limiter_inv_def)

lemma limiter_inv_init:
  assumes "ConcurrencyLimiter_init m = Inr l0"
  shows "limiter_inv (replicate k Entering, l0) \<and> max_concurrent l0 = m"
proof -
  have "sum_list (map holds_permit (replicate k Entering)) = 0"
       "sum_list (map counted (replicate k Entering)) = 0"
    by (induction k) simp_all
  then show ?thesis using assms
    by (auto simp: ConcurrencyLimiter_init_def limiter_inv_def split: if_splits)
qed

lemma sum_counted_filter: "sum_list (map counted pcs) = int (length (filter in_body pcs))"
proof (induction pcs)
  case Nil
  then show ?case by simp
next
  case (Cons p pcs)
  then show ?case by (cases p) (simp_all add: in_body_def)
qed

lemma exit_path_effect:
  "exit_path r l = (Finished r, l\<lparr>in_flight := in_flight l - 1, semaphore := semaphore l + 1\<rparr>)"
  by (simp add: exit_path_def)

text \<open>
  Claim C5. For a limiter built with \<open>max_concurrent = m\<close> and any number of tasks running
  \<^verbatim>\<open>async with limiter.acquire()\<close> under any schedule and with bodies that end normally or by
  an exception, every state seen satisfies \<open>0 \<le> in_flight \<le> max_concurrent\<close>; \<open>in_flight\<close>
  is the number of tasks between their increment and their decrement. The counter goes up
  only by the statement that follows the acquisition of a permit, a permit is taken only
  when one is free, and whether the body ends normally or raises, the way out decrements
  the counter and gives the permit back.
\<close>

theorem limiter_in_flight_bounded:
  assumes "ConcurrencyLimiter_init m = Inr l0"
    and "s \<in> set (limiter_trace sched (replicate k Entering, l0))"
  shows "0 \<le> in_flight (snd s) \<and> in_flight (snd s) \<le> max_concurrent (snd s)
       \<and> max_concurrent (snd s) = m
       \<and> in_flight (snd s) = int (length (filter in_body (fst s)))
       \<and> (\<forall>r p l. in_flight l < in_flight (snd (limiter_step r p l)) \<longrightarrow>
             p = GotPermit \<and> in_flight (snd (limiter_step r p l)) = in_flight l + 1)
       \<and> (\<forall>r p l. fst (limiter_step r p l) = GotPermit \<longrightarrow>
             p = Entering \<and> 0 < semaphore l \<and> semaphore (snd (limiter_step r p l)) = semaphore l - 1)
       \<and> (\<forall>r l. exit_path r l =
             (Finished r, l\<lparr>in_flight := in_flight l - 1, semaphore := semaphore l + 1\<rparr>))"
proof -
  from limiter_inv_init[OF assms(1)]
  have i0: "limiter_inv (replicate k Entering, l0)" and m0: "max_concurrent l0 = m" by simp_all
  from limiter_trace_inv[OF i0 assms(2)] m0
  have inv: "limiter_inv s" and mx: "max_concurrent (snd s) = m" by simp_all
  have exact: "in_flight (snd s) = int (length (filter in_body (fst s)))"
    using inv by (simp add: limiter_inv_def sum_counted_filter)
  have inc: "\<forall>r p l. in_flight l < in_flight (snd (limiter_step r p l)) \<longrightarrow>
             p = GotPermit \<and> in_flight (snd (limiter_step r p l)) = in_flight l + 1"
  proof (intro allI impI)
    fix r p l assume "in_flight l < in_flight (snd (limiter_step r p l))"
    then show "p = GotPermit \<and> in_flight (snd (limiter_step r p l)) = in_flight l + 1"
      by (cases p) (simp_all split: if_splits)
  qed
  have permit: "\<forall>r p l. fst (limiter_step r p l) = GotPermit \<longrightarrow>
             p = Entering \<and> 0 < semaphore l \<and> semaphore (snd (limiter_step r p l)) = semaphore l - 1"
  proof (intro allI impI)
    fix r p l assume "fst (limiter_step r p l) = GotPermit"
    then show "p = Entering \<and> 0 < semaphore l \<and> semaphore (snd (limiter_step r p l)) = semaphore l - 1"
      by (cases p) (simp_all split: if_splits)
  qed
  have exit: "\<forall>r l. exit_path r l =
             (Finished r, l\<lparr>in_flight := in_flight l - 1, semaphore := semaphore l + 1\<rparr>)"
    by (simp add: exit_path_effect)
  from limiter_inv_bounds[OF inv] mx exact inc permit exit show ?thesis by (intro conjI) simp_all
qed

lemma sample_trace:
  "limiter_trace sample_schedule (replicate 3 Entering, \<lparr>max_concurrent = 2, semaphore = 2, in_flight = 0\<rparr>) =
   [([Entering, Entering, Entering], \<lparr>max_concurrent = 2, semaphore = 2, in_flight = 0\<rparr>),
    ([GotPermit, Entering, Entering], \<lparr>max_concurrent = 2, semaphore = 1, in_flight = 0\<rparr>),
    ([GotPermit, GotPermit, Entering], \<lparr>max_concurrent = 2, semaphore = 0, in_flight = 0\<rparr>),
    ([Running, GotPermit, Entering], \<lparr>max_concurrent = 2, semaphore = 0, in_flight = 1\<rparr>),
    ([Running, Running, Entering], \<lparr>max_concurrent = 2, semaphore = 0, in_flight = 2\<rparr>),
    ([Running, Running, Entering], \<lparr>max_concurrent = 2, semaphore = 0, in_flight = 2\<rparr>),
    ([Leaving (Some ServerError), Running, Entering], \<lparr>max_concurrent = 2, semaphore = 0, in_flight = 2\<rparr>),
    ([Releasing (Some ServerError), Running, Entering], \<lparr>max_concurrent = 2, semaphore = 0, in_flight = 1\<rparr>),
    ([Finished (Some ServerError), Running, Entering], \<lparr>max_concurrent = 2, semaphore = 1, in_flight = 1\<rparr>),
    ([Finished (Some ServerError), Running, GotPermit], \<lparr>max_concurrent = 2, semaphore = 0, in_flight = 1\<rparr>)]"
  by (simp add: sample_schedule_def numeral_3_eq_3)

text \<open>Claim C5, witness: three tasks on a limiter of two permits; the third waits until the
  first, whose body raises, has given its permit back.\<close>

theorem limiter_in_flight_bounded_witness:
  "ConcurrencyLimiter_init 2 = Inr \<lparr>max_concurrent = 2, semaphore = 2, in_flight = 0\<rparr>
   \<and> ([Running, Running, Entering], \<lparr>max_concurrent = 2, semaphore = 0, in_flight = 2\<rparr>)
       \<in> set (limiter_trace sample_schedule
                (replicate 3 Entering, \<lparr>max_concurrent = 2, semaphore = 2, in_flight = 0\<rparr>))
   \<and> list_all (\<lambda>s. 0 \<le> in_flight (snd s) \<and> in_flight (snd s) \<le> max_concurrent (snd s)
                   \<and> max_concurrent (snd s) = 2)
        (limiter_trace sample_schedule
           (replicate 3 Entering, \<lparr>max_concurrent = 2, semaphore = 2, in_flight = 0\<rparr>))"
proof -
  let ?l0 = "\<lparr>max_concurrent = 2, semaphore = 2, in_flight = 0\<rparr>"
  have i: "ConcurrencyLimiter_init 2 = Inr ?l0"
    by (simp add: ConcurrencyLimiter_init_def)
  have m: "([Running, Running, Entering], \<lparr>max_concurrent = 2, semaphore = 0, in_flight = 2\<rparr>)
       \<in> set (limiter_trace sample_schedule (replicate 3 Entering, ?l0))"
    by (simp only: sample_trace) simp
  have "\<forall>s \<in> set (limiter_trace sample_schedule (replicate 3 Entering, ?l0)).
          0 \<le> in_flight (snd s) \<and> in_flight (snd s) \<le> max_concurrent (snd s)
          \<and> max_concurrent (snd s) = 2"
  proof (rule ballI)
    fix s assume "s \<in> set (limiter_trace sample_schedule (replicate 3 Entering, ?l0))"
    from limiter_in_flight_bounded[OF i this]
    show "0 \<le> in_flight (snd s) \<and> in_flight (snd s) \<le> max_concurrent (snd s)
          \<and> max_concurrent (snd s) = 2"
      by blast
  qed
  then have "list_all (\<lambda>s. 0 \<le> in_flight (snd s) \<and> in_flight (snd s) \<le> max_concurrent (snd s)
                   \<and> max_concurrent (snd s) = 2)
        (limiter_trace sample_schedule (replicate 3 Entering, ?l0))"
    by (simp only: list_all_iff)
  with i m show ?thesis by (intro conjI)
qed

section \<open>ThrottledClient: metrics and the token of a failed request\<close>

lemma client0_init: "ThrottledClient_init 10 20 0 = Inr client0"
  by (simp add: ThrottledClient_init_def ConcurrencyLimiter_init_def client0_def)

lemma py_int_20: "py_int 20 = 20"
  by (simp add: py_int_def)

lemma acquire_client0:
  "acquire still_clock (Suc 0) (bucket (rate_limiter client0)) clock0 =
     Some (Inr 0, \<lparr>max_tokens = 20, tokens_per_second = 20, tokens = 19, last_refill = 0\<rparr>,
           \<lparr>now = 0, reads = 3, slept = []\<rparr>)"
  by (simp add: acquire_def client0_def RateLimiter_init_def py_int_20 post_init_def clock0_def
        still_clock_def time_time_def stamp_refill_def refill_tokens_def take_token_def Let_def)

lemma request_client0:
  "request still_clock (Suc 0) (Inr u) jd ev client0 clock0 =
     Some (fst (except_clauses (try_block jd ev metrics0)),
           \<lparr>concurrency_limiter = \<lparr>max_concurrent = 10, semaphore = 10, in_flight = 0\<rparr>,
            rate_limiter = \<lparr>max_per_second = 20,
               bucket = \<lparr>max_tokens = 20, tokens_per_second = 20, tokens = 19, last_refill = 0\<rparr>,
               total_wait_time = 0, requests_made = 1\<rparr>,
            metrics = snd (except_clauses (try_block jd ev metrics0))\<rparr>,
           \<lparr>now = 0, reads = 3, slept = []\<rparr>)"
  by (simp add: request_def rate_aenter_def acquire_client0 conc_aenter_def conc_aexit_def
        rate_aexit_def Let_def)
     (simp add: client0_def RateLimiter_init_def)

lemma request_failed_requests:
  assumes "request J n url jd ev c clk = Some (r, c', clk')"
  shows "failed_requests (metrics c') = failed_requests (metrics c)"
proof -
  have "failed_requests (snd (except_clauses (try_block jd ev m))) = failed_requests m" for m
    by (cases "fst (try_block jd ev m)"; cases "try_block jd ev m")
       (auto simp: try_block_def Let_def split: option.splits http_event.splits sum.splits if_splits)
  with assms show ?thesis
    by (auto simp: request_def rate_aenter_def Let_def
             split: sum.splits option.splits prod.splits)
qed

text \<open>
  Claim C6, the code at the failing inputs. A request that reaches execution and fails, be it
  answered with status 500 or 404 or be it a time-out (\<^verbatim>\<open>asyncio.TimeoutError\<close>) or a connection
  error (\<^verbatim>\<open>aiohttp.ClientConnectorError\<close>) of the transport, raises inside the \<^verbatim>\<open>try\<close> block.
  The first \<^verbatim>\<open>except\<close> clause names a class that is no exception class, so the caller gets
  \<^verbatim>\<open>TypeError\<close> and no clause body runs: \<open>total_requests\<close> has gone up by one while
  \<open>failed_requests\<close> (and \<open>successful_requests\<close>) are unchanged. (By \<open>request_failed_requests\<close>
  no call ever changes \<open>failed_requests\<close>.)
\<close>

theorem failures_not_counted_as_failed:
  "map (\<lambda>ev. map_option (\<lambda>x. (fst x, metrics (fst (snd x))))
               (request still_clock 1 (Inr ''http://localhost:3000/api/productos'') None
                  ev client0 clock0))
     [Response 500 (Inr ''{}''), Response 404 (Inr ''{}''),
      RequestRaises AsyncioTimeoutError, RequestRaises ClientConnectorError]
   = replicate 4
       (Some (Inl TypeError,
              \<lparr>total_requests = 1, successful_requests = 0, failed_requests = 0,
               total_bytes_sent = 0, total_bytes_received = 0\<rparr>))"
  by (simp add: request_client0 try_block_def metrics0_def numeral_eq_Suc)

lemma request_bucket:
  assumes "request J n url jd ev c clk = Some (r, c', clk')"
  shows "(case url of
            Inl e \<Rightarrow> bucket (rate_limiter c') = bucket (rate_limiter c) \<and> clk' = clk
          | Inr u \<Rightarrow> (\<exists>w. acquire J n (bucket (rate_limiter c)) clk
                            = Some (w, bucket (rate_limiter c'), clk')))"
  using assms
  by (auto simp: request_def rate_aenter_def rate_aexit_def Let_def
           split: sum.splits option.splits prod.splits)

lemma request_other_event:
  assumes "request J n url jd ev c clk = Some (r, c', clk')"
  shows "\<exists>r2 c2. request J n url jd ev2 c clk = Some (r2, c2, clk')
            \<and> rate_limiter c2 = rate_limiter c'
            \<and> concurrency_limiter c2 = concurrency_limiter c'"
  using assms
  by (auto simp: request_def rate_aenter_def rate_aexit_def Let_def
           split: sum.splits option.splits prod.splits)

text \<open>
  Claim C7. Whatever the server does with a request (so also when the request fails where
  another one succeeds), a run of \<^verbatim>\<open>_request\<close> from the same client under the same clock
  ends with the same token bucket, and that bucket is the one \<^verbatim>\<open>TokenBucket.acquire\<close> left:
  nothing after the acquisition writes to it, so a consumed token is not given back.
\<close>

theorem token_not_refunded_on_failure:
  assumes "request J n url jd ev c clk = Some (r, c', clk')"
  shows "(\<exists>r2 c2. request J n url jd ev2 c clk = Some (r2, c2, clk')
             \<and> bucket (rate_limiter c2) = bucket (rate_limiter c'))
       \<and> (\<forall>u. url = Inr u \<longrightarrow>
             (\<exists>w. acquire J n (bucket (rate_limiter c)) clk
                     = Some (w, bucket (rate_limiter c'), clk')))"
proof (intro conjI allI impI)
  from request_other_event[OF assms, of ev2]
  show "\<exists>r2 c2. request J n url jd ev2 c clk = Some (r2, c2, clk')
             \<and> bucket (rate_limiter c2) = bucket (rate_limiter c')"
    by auto
next
  fix u assume "url = Inr u"
  with request_bucket[OF assms]
  show "\<exists>w. acquire J n (bucket (rate_limiter c)) clk = Some (w, bucket (rate_limiter c'), clk')"
    by simp
qed

text \<open>Claim C7, witness: the same request answered with status 500 and with status 200.\<close>

theorem token_not_refunded_on_failure_witness:
  "request still_clock 1 (Inr ''productos'') None (Response 500 (Inr ''{}'')) client0 clock0 =
     Some (Inl TypeError,
           \<lparr>concurrency_limiter = \<lparr>max_concurrent = 10, semaphore = 10, in_flight = 0\<rparr>,
            rate_limiter = \<lparr>max_per_second = 20,
               bucket = \<lparr>max_tokens = 20, tokens_per_second = 20, tokens = 19, last_refill = 0\<rparr>,
               total_wait_time = 0, requests_made = 1\<rparr>,
            metrics = \<lparr>total_requests = 1, successful_requests = 0, failed_requests = 0,
                       total_bytes_sent = 0, total_bytes_received = 0\<rparr>\<rparr>,
           \<lparr>now = 0, reads = 3, slept = []\<rparr>)
   \<and> (\<exists>r2 c2. request still_clock 1 (Inr ''productos'') None (Response 200 (Inr ''{}''))
                  client0 clock0 = Some (r2, c2, \<lparr>now = 0, reads = 3, slept = []\<rparr>)
         \<and> bucket (rate_limiter c2) =
             \<lparr>max_tokens = 20, tokens_per_second = 20, tokens = 19, last_refill = 0\<rparr>)"
proof -
  have a: "request still_clock 1 (Inr ''productos'') None (Response 500 (Inr ''{}'')) client0 clock0 =
     Some (Inl TypeError,
           \<lparr>concurrency_limiter = \<lparr>max_concurrent = 10, semaphore = 10, in_flight = 0\<rparr>,
            rate_limiter = \<lparr>max_per_second = 20,
               bucket = \<lparr>max_tokens = 20, tokens_per_second = 20, tokens = 19, last_refill = 0\<rparr>,
               total_wait_time = 0, requests_made = 1\<rparr>,
            metrics = \<lparr>total_requests = 1, successful_requests = 0, failed_requests = 0,
                       total_bytes_sent = 0, total_bytes_received = 0\<rparr>\<rparr>,
           \<lparr>now = 0, reads = 3, slept = []\<rparr>)"
    by (simp add: request_client0 try_block_def metrics0_def)
  from token_not_refunded_on_failure[OF a, of "Response 200 (Inr ''{}'')"]
  have "\<exists>r2 c2. request still_clock 1 (Inr ''productos'') None (Response 200 (Inr ''{}''))
                  client0 clock0 = Some (r2, c2, \<lparr>now = 0, reads = 3, slept = []\<rparr>)
         \<and> bucket (rate_limiter c2) =
             \<lparr>max_tokens = 20, tokens_per_second = 20, tokens = 19, last_refill = 0\<rparr>"
    by simp
  with a show ?thesis by (rule conjI)
qed

section \<open>Metrics snapshots\<close>

lemma py_round2_1: "py_round2 1 = 1" "py_round2 2 = 2" "py_round2 20 = 20"
  by (simp_all add: py_round2_def round_half_even_def)

lemma to_dict_twice_sample:
  "to_dict_twice ticking_clock stats0 clock0 =
     (\<lparr>created = 3, reused = 5, closed = 1, avg_acquisition_ms = 20, uptime_sec = 1\<rparr>,
      \<lparr>created = 3, reused = 5, closed = 1, avg_acquisition_ms = 20, uptime_sec = 2\<rparr>)"
  by (simp add: to_dict_twice_def to_dict_def get_uptime_def get_average_acquisition_time_def
        stats0_def ticking_clock_def clock0_def py_round2_1)

text \<open>
  Claim C9, counterexample. Two consecutive reads of \<^verbatim>\<open>ConnectionPoolStats.to_dict\<close>, with no
  operation in between, while the wall clock goes on: the second snapshot has another
  \<open>uptime_sec\<close> than the first.
\<close>

theorem snapshot_uptime_counterexample:
  "to_dict_twice ticking_clock stats0 clock0 =
     (\<lparr>created = 3, reused = 5, closed = 1, avg_acquisition_ms = 20, uptime_sec = 1\<rparr>,
      \<lparr>created = 3, reused = 5, closed = 1, avg_acquisition_ms = 20, uptime_sec = 2\<rparr>)
   \<and> fst (to_dict_twice ticking_clock stats0 clock0) \<noteq> snd (to_dict_twice ticking_clock stats0 clock0)"
  by (simp add: to_dict_twice_sample)

text \<open>
  Claim C9, as amended. Both reads hand the state back unchanged. Two consecutive
  \<^verbatim>\<open>get_metrics\<close> reads give identical snapshots. Two consecutive \<^verbatim>\<open>to_dict\<close> reads agree on
  every field that is not derived from the time; \<open>uptime_sec\<close> of each read is its own clock
  reading minus the start time, rounded to hundredths, so the two snapshots are identical
  exactly when these two roundings coincide.
\<close>

theorem snapshot_reads_are_projections:
  "snd (get_metrics c) = c
   \<and> fst (get_metrics (snd (get_metrics c))) = fst (get_metrics c)
   \<and> fst (snd (to_dict J s clk)) = s
   \<and> created (snd (to_dict_twice J s clk)) = created (fst (to_dict_twice J s clk))
   \<and> reused (snd (to_dict_twice J s clk)) = reused (fst (to_dict_twice J s clk))
   \<and> closed (snd (to_dict_twice J s clk)) = closed (fst (to_dict_twice J s clk))
   \<and> avg_acquisition_ms (snd (to_dict_twice J s clk)) = avg_acquisition_ms (fst (to_dict_twice J s clk))
   \<and> uptime_sec (fst (to_dict_twice J s clk)) = py_round2 (now clk + J (reads clk) - start_time s)
   \<and> uptime_sec (snd (to_dict_twice J s clk))
        = py_round2 (now clk + J (reads clk) + J (Suc (reads clk)) - start_time s)
   \<and> (snd (to_dict_twice J s clk) = fst (to_dict_twice J s clk)
        \<longleftrightarrow> py_round2 (now clk + J (reads clk) + J (Suc (reads clk)) - start_time s)
            = py_round2 (now clk + J (reads clk) - start_time s))"
  by (simp add: get_metrics_def to_dict_twice_def to_dict_def get_uptime_def)

text \<open>Claim C9, witness: the reads of the counterexample, one second apart.\<close>

theorem snapshot_reads_are_projections_witness:
  "uptime_sec (fst (to_dict_twice ticking_clock stats0 clock0)) = 1
   \<and> uptime_sec (snd (to_dict_twice ticking_clock stats0 clock0)) = 2
   \<and> created (snd (to_dict_twice ticking_clock stats0 clock0)) = 3"
proof -
  note t = snapshot_reads_are_projections[of client0 ticking_clock stats0 clock0]
  from t have "uptime_sec (fst (to_dict_twice ticking_clock stats0 clock0))
      = py_round2 (now clock0 + ticking_clock (reads clock0) - start_time stats0)" by blast
  moreover from t have "uptime_sec (snd (to_dict_twice ticking_clock stats0 clock0))
      = py_round2 (now clock0 + ticking_clock (reads clock0) + ticking_clock (Suc (reads clock0))
                   - start_time stats0)" by blast
  moreover from t have "created (snd (to_dict_twice ticking_clock stats0 clock0))
      = created (fst (to_dict_twice ticking_clock stats0 clock0))" by blast
  ultimately show ?thesis
    by (simp add: ticking_clock_def clock0_def stats0_def py_round2_1 to_dict_twice_def to_dict_def)
qed

section \<open>Cancellation cascade: what an authorization failure does\<close>

lemma procesar_done_total: "\<exists>st'. procesar_done ds pend st = Inr st'"
proof (induction ds pend st rule: procesar_done.induct)
  case (1 pendientes st)
  then show ?case by simp
next
  case (2 nombre resultado rest pendientes st)
  then show ?case by simp
next
  case (3 nombre cls msg rest pendientes st)
  then show ?case by (cases cls) (simp_all add: Let_def)
qed

lemma cancelacion_loop_no_raise: "cancelacion_loop waits pend st \<noteq> Some (Inl e)"
proof (induction waits pend st rule: cancelacion_loop.induct)
  case (1 waits st)
  then show ?case by simp
next
  case (2 p ps st)
  then show ?case by simp
next
  case (3 dones pendientes waits p ps st)
  obtain st' where s: "procesar_done dones pendientes
      (st\<lparr>tareas := mark_settled (map fst dones) (tareas st)\<rparr>) = Inr st'"
    using procesar_done_total by blast
  show ?case using 3[OF s] s by simp
qed

text \<open>
  What the \<^verbatim>\<open>except NoAutorizado\<close> clause does with an outcome of that class while tasks are
  pending: it reports the failure, calls \<^verbatim>\<open>cancel()\<close> on every pending task that is not done,
  reports each pending task as cancelled and sets \<open>canceladas_por_auth\<close>.
\<close>

lemma cancel_remaining_snd:
  "snd (cancel_remaining pend ts) p =
     (if p \<in> set pend \<and> ts p \<noteq> Settled then CancelRequested else ts p)"
  by (induction pend arbitrary: ts) auto

lemma procesar_done_fatal:
  assumes "pend \<noteq> []"
  shows "procesar_done ((t, Raises NoAutorizado msg) # d2) pend st =
     Inr (st\<lparr>tareas := snd (cancel_remaining pend (tareas st)),
             canceladas_por_auth := True,
             errores := errores st @ [\<lparr>endpoint = t, error = msg, cancelada = Some False\<rparr>]
                        @ map cancel_entry pend\<rparr>)"
  using assms by (simp add: Let_def cancel_entry_def)

text \<open>Arrivals none of which is an authorization failure leave \<open>canceladas_por_auth\<close> and
  the tasks as they are.\<close>

lemma tareas_update_comm:
  "(st::cancelacion)\<lparr>tareas := ts, datos := d\<rparr> = st\<lparr>datos := d, tareas := ts\<rparr>"
  "(st::cancelacion)\<lparr>tareas := ts, errores := e\<rparr> = st\<lparr>errores := e, tareas := ts\<rparr>"
  by (cases st, simp)+

lemma procesar_done_nonfatal_frame:
  assumes "\<not> list_ex fatal ds"
  shows "\<exists>D E. \<forall>ts rest. procesar_done (ds @ rest) pend (st\<lparr>tareas := ts\<rparr>)
                 = procesar_done rest pend (st\<lparr>datos := D, errores := E, tareas := ts\<rparr>)"
  using assms
proof (induction ds pend st rule: procesar_done.induct)
  case (1 pendientes st)
  have "\<forall>ts rest. procesar_done ([] @ rest) pendientes (st\<lparr>tareas := ts\<rparr>)
          = procesar_done rest pendientes (st\<lparr>datos := datos st, errores := errores st, tareas := ts\<rparr>)"
    by simp
  then show ?case by blast
next
  case (2 nombre resultado rs pendientes st)
  from "2.prems" have "\<not> list_ex fatal rs" by simp
  from "2.IH"[OF this] obtain D E where
    "\<forall>ts rest. procesar_done (rs @ rest) pendientes
         (st\<lparr>datos := (datos st)(nombre \<mapsto> resultado), tareas := ts\<rparr>)
       = procesar_done rest pendientes
         (st\<lparr>datos := (datos st)(nombre \<mapsto> resultado), datos := D, errores := E, tareas := ts\<rparr>)"
    by blast
  then have "\<forall>ts rest. procesar_done (((nombre, Result resultado) # rs) @ rest) pendientes (st\<lparr>tareas := ts\<rparr>)
       = procesar_done rest pendientes (st\<lparr>datos := D, errores := E, tareas := ts\<rparr>)"
    by (simp add: tareas_update_comm)
  then show ?case by blast
next
  case (3 nombre cls msg rs pendientes st)
  from "3.prems" have nf: "cls \<noteq> NoAutorizado" "\<not> list_ex fatal rs" by simp_all
  show ?case
  proof (cases "cls = CancelledError")
    case True
    from "3.IH"(2)[OF nf(1) True nf(2)] obtain D E where
      "\<forall>ts rest. procesar_done (rs @ rest) pendientes
         (st\<lparr>errores := errores st @ [\<lparr>endpoint = nombre, error = ''Tarea cancelada'', cancelada = Some True\<rparr>],
             tareas := ts\<rparr>)
       = procesar_done rest pendientes
         (st\<lparr>errores := errores st @ [\<lparr>endpoint = nombre, error = ''Tarea cancelada'', cancelada = Some True\<rparr>],
             datos := D, errores := E, tareas := ts\<rparr>)"
      by blast
    then have "\<forall>ts rest. procesar_done (((nombre, Raises cls msg) # rs) @ rest) pendientes (st\<lparr>tareas := ts\<rparr>)
       = procesar_done rest pendientes (st\<lparr>datos := D, errores := E, tareas := ts\<rparr>)"
      using True nf(1) by (simp add: tareas_update_comm)
    then show ?thesis by blast
  next
    case False
    then have ex: "is_Exception cls" by (cases cls) simp_all
    from "3.IH"(3)[OF nf(1) False ex nf(2)] obtain D E where
      "\<forall>ts rest. procesar_done (rs @ rest) pendientes
         (st\<lparr>errores := errores st @ [\<lparr>endpoint = nombre, error = msg, cancelada = Some False\<rparr>],
             tareas := ts\<rparr>)
       = procesar_done rest pendientes
         (st\<lparr>errores := errores st @ [\<lparr>endpoint = nombre, error = msg, cancelada = Some False\<rparr>],
             datos := D, errores := E, tareas := ts\<rparr>)"
      by blast
    then have "\<forall>ts rest. procesar_done (((nombre, Raises cls msg) # rs) @ rest) pendientes (st\<lparr>tareas := ts\<rparr>)
       = procesar_done rest pendientes (st\<lparr>datos := D, errores := E, tareas := ts\<rparr>)"
      using False ex nf(1) by (simp add: tareas_update_comm)
    then show ?thesis by blast
  qed
qed

lemma llegadas_Cons: "llegadas ((d, p) # ws) = d @ llegadas ws"
  by (simp add: llegadas_def)

lemma procesar_done_nonfatal_result:
  assumes "\<not> list_ex fatal ds"
  shows "\<exists>D E. \<forall>ts. procesar_done ds pend (st\<lparr>tareas := ts\<rparr>)
                 = Inr (st\<lparr>datos := D, errores := E, tareas := ts\<rparr>)"
proof -
  from procesar_done_nonfatal_frame[OF assms, of pend st] obtain D E where
    "\<forall>ts rest. procesar_done (ds @ rest) pend (st\<lparr>tareas := ts\<rparr>)
                 = procesar_done rest pend (st\<lparr>datos := D, errores := E, tareas := ts\<rparr>)"
    by blast
  then have "\<forall>ts. procesar_done (ds @ []) pend (st\<lparr>tareas := ts\<rparr>)
                 = procesar_done [] pend (st\<lparr>datos := D, errores := E, tareas := ts\<rparr>)"
    by blast
  then show ?thesis by auto
qed

lemma loop_no_fatal:
  assumes "\<not> list_ex fatal (llegadas waits)" "cancelacion_loop waits pend st = Some (Inr st')"
  shows "canceladas_por_auth st' = canceladas_por_auth st
       \<and> (\<forall>t. tareas st' t = CancelRequested \<longrightarrow> tareas st t = CancelRequested)"
  using assms
proof (induction waits pend st rule: cancelacion_loop.induct)
  case (1 waits st)
  then show ?case by simp
next
  case (2 p ps st)
  then show ?case by simp
next
  case (3 dones pendientes waits p ps st)
  from "3.prems"(1) have nfd: "\<not> list_ex fatal dones" and nfw: "\<not> list_ex fatal (llegadas waits)"
    by (simp_all add: llegadas_Cons)
  let ?M = "mark_settled (map fst dones) (tareas st)"
  from procesar_done_nonfatal_result[OF nfd, of pendientes st] obtain D E where
    pd: "procesar_done dones pendientes (st\<lparr>tareas := ?M\<rparr>)
           = Inr (st\<lparr>datos := D, errores := E, tareas := ?M\<rparr>)"
    by blast
  let ?st1 = "st\<lparr>datos := D, errores := E, tareas := ?M\<rparr>"
  show ?case
  proof (cases "canceladas_por_auth st")
    case True
    with "3.prems"(2) pd have "st' = ?st1" by simp
    then show ?thesis by (auto simp: mark_settled_def split: if_splits)
  next
    case False
    then have nc: "\<not> canceladas_por_auth ?st1" by simp
    with "3.prems"(2) pd have run: "cancelacion_loop waits pendientes ?st1 = Some (Inr st')"
      by simp
    from "3.IH"[OF pd nc nfw run]
    show ?thesis by (auto simp: mark_settled_def split: if_splits)
  qed
qed

text \<open>
  No task of the dashboard ends with \<^verbatim>\<open>NoAutorizado\<close>: an exception of its \<^verbatim>\<open>try\<close> block, the
  one \<^verbatim>\<open>_verificar_respuesta\<close> raises for status 401 included, is replaced by \<^verbatim>\<open>TypeError\<close>
  at the first \<^verbatim>\<open>except\<close> clause. So no run of \<^verbatim>\<open>cargar_dashboard_con_cancelacion\<close> sets
  \<open>canceladas_por_auth\<close> or cancels a task, whatever the server answers.
\<close>

lemma crear_tarea_outcome:
  "(\<exists>v. crear_tarea valida t r = Result v) \<or> crear_tarea valida t r = Raises TypeError msg_catching"
proof -
  have "(\<exists>v. manejadores x = Result v) \<or> manejadores x = Raises TypeError msg_catching" for x
    by (cases x) simp_all
  then show ?thesis
    by (cases t)
       (simp_all add: listar_productos_def obtener_categorias_def obtener_perfil_def
          obtener_notificaciones_def)
qed

lemma crear_tarea_not_fatal: "\<not> fatal (t, crear_tarea valida t r)"
  using crear_tarea_outcome[of valida t r] by auto

lemma settle_not_fatal: "\<not> list_ex fatal (llegadas (map (settle valida) waits))"
  by (auto simp: llegadas_def settle_def list_ex_iff crear_tarea_not_fatal)

lemma cascade_never_cancels:
  assumes "cargar_dashboard_con_cancelacion valida waits = Some (Inr st)"
  shows "\<not> canceladas_por_auth st \<and> (\<forall>p. tareas st p \<noteq> CancelRequested)"
proof -
  from assms have "cancelacion_loop (map (settle valida) waits) [Productos, Categorias, Perfil]
       \<lparr>datos = (\<lambda>t. None), errores = [], canceladas_por_auth = False, tareas = (\<lambda>t. Pending)\<rparr>
        = Some (Inr st)"
    by (simp add: cargar_dashboard_con_cancelacion_def)
  from loop_no_fatal[OF settle_not_fatal this]
  show ?thesis by auto
qed

lemma cascade_never_raises: "cargar_dashboard_con_cancelacion valida waits \<noteq> Some (Inl e)"
  by (simp add: cargar_dashboard_con_cancelacion_def cancelacion_loop_no_raise)

text \<open>
  Claim C2, the code at the failing input. The server answers the request of \<open>Perfil\<close> with
  status 401 while \<open>Productos\<close> and \<open>Categorias\<close> are pending. \<^verbatim>\<open>obtener_perfil\<close> ends with
  \<^verbatim>\<open>TypeError\<close>, which the loop takes in its \<^verbatim>\<open>except Exception\<close> clause: the failure is reported
  with \<open>cancelada = False\<close>, \<open>canceladas_por_auth\<close> stays \<^verbatim>\<open>False\<close>, no pending task is
  cancelled or reported as cancelled, and the run goes on draining until \<open>Productos\<close> and
  \<open>Categorias\<close> have delivered their lists.
\<close>

theorem unauthorized_reply_cancels_nothing:
  "map_option (map_sum id (\<lambda>st. (informe st, estados st)))
     (cargar_dashboard_con_cancelacion sample_lista_valida sample_cascade)
   = Some (Inr ((sin_datos(Productos \<mapsto> ''[]'', Categorias \<mapsto> ''[]''),
                 [\<lparr>endpoint = Perfil, error = msg_catching, cancelada = Some False\<rparr>],
                 False),
                [Settled, Settled, Settled]))"
  by (simp add: cargar_dashboard_con_cancelacion_def sample_cascade_def settle_def
        obtener_perfil_def obtener_categorias_def listar_productos_def peticion_def
        verificar_respuesta_def validar_y_retornar_lista_def sample_lista_valida_def
        mark_settled_def informe_def estados_def sin_datos_def fun_upd_twist)

section \<open>Priority-tiered loading: when the partial dashboard is ready\<close>

lemma exitosas_simps [simp]:
  "exitosas [] = {}"
  "exitosas ((t, Result v) # ds) = insert t (exitosas ds)"
  "exitosas ((t, Raises c m) # ds) = exitosas ds"
  "exitosas (a @ b) = exitosas a \<union> exitosas b"
  by (auto simp: exitosas_def)

lemma procesar_llegadas_reads:
  "reads (snd (procesar_llegadas J inicio ds st clk)) \<le> reads clk + 1
   \<and> (tiempo_dashboard_parcial st \<noteq> None \<longrightarrow> snd (procesar_llegadas J inicio ds st clk) = clk)"
proof (induction J inicio ds st clk rule: procesar_llegadas.induct)
  case (1 J inicio st clk)
  then show ?case by simp
next
  case (2 J inicio nombre resultado rest st clk)
  then show ?case by (auto simp: Let_def)
next
  case (3 J inicio nombre cls msg rest st clk)
  then show ?case by (auto simp: Let_def)
qed

lemma procesar_llegadas_inv:
  assumes "procesar_llegadas J inicio ds st clk = (Inr st', clk')" "pinv st"
  shows "pinv st'
       \<and> criticas_completadas st' = criticas_completadas st \<union> (tareas_criticas \<inter> exitosas ds)
       \<and> reads clk' = reads clk +
            (if tiempo_dashboard_parcial st = None \<and> tiempo_dashboard_parcial st' \<noteq> None then 1 else 0)"
  using assms
proof (induction J inicio ds st clk rule: procesar_llegadas.induct)
  case (1 J inicio st clk)
  then show ?case by auto
next
  case (2 J inicio nombre resultado rest st clk)
  let ?st1 = "st\<lparr>orden_llegada := orden_llegada st @ [nombre],
                   datos := (datos st)(nombre := Some resultado)\<rparr>"
  show ?case
  proof (cases "nombre \<in> tareas_criticas")
    case False
    with "2.prems" have run: "procesar_llegadas J inicio rest ?st1 clk = (Inr st', clk')"
      by (simp add: Let_def)
    have "pinv ?st1" using "2.prems"(2) by (simp add: pinv_def)
    from "2.IH"(3)[OF refl False run this] False show ?thesis by auto
  next
    case True
    let ?st2 = "?st1\<lparr>criticas_completadas := insert nombre (criticas_completadas ?st1)\<rparr>"
    show ?thesis
    proof (cases "criticas_completadas ?st2 = tareas_criticas \<and> tiempo_dashboard_parcial ?st2 = None")
      case c: True
      then have c1: "insert nombre (criticas_completadas st) = tareas_criticas"
        and c2: "tiempo_dashboard_parcial st = None" by simp_all
      let ?st3 = "?st2\<lparr>tiempo_dashboard_parcial := Some (fst (time_time J clk) - inicio)\<rparr>"
      have "procesar_llegadas J inicio ((nombre, Result resultado) # rest) st clk
            = procesar_llegadas J inicio rest ?st3 (snd (time_time J clk))"
        using True c1 c2 by (simp add: Let_def del: time_time_simps)
      with "2.prems"(1) have run:
        "procesar_llegadas J inicio rest ?st3 (snd (time_time J clk)) = (Inr st', clk')"
        by simp
      have i3: "pinv ?st3" using c1 by (simp add: pinv_def)
      from "2.IH"(1)[OF refl True refl c run i3]
      have "pinv st'" "criticas_completadas st' = tareas_criticas \<union> (tareas_criticas \<inter> exitosas rest)"
        "reads clk' = Suc (reads clk)"
        using c1 by simp_all
      moreover from \<open>pinv st'\<close> this(2) have "tiempo_dashboard_parcial st' \<noteq> None"
        by (auto simp: pinv_def)
      ultimately show ?thesis using c1 c2 True by auto
    next
      case c: False
      have "procesar_llegadas J inicio ((nombre, Result resultado) # rest) st clk
            = procesar_llegadas J inicio rest ?st2 clk"
        using True c by (simp only: procesar_llegadas.simps Let_def if_True if_False)
      with "2.prems"(1) have run: "procesar_llegadas J inicio rest ?st2 clk = (Inr st', clk')"
        by simp
      have i2: "pinv ?st2" using c True "2.prems"(2) by (auto simp: pinv_def)
      from "2.IH"(2)[OF refl True refl c run i2] True
      show ?thesis by auto
    qed
  qed
next
  case (3 J inicio nombre cls msg rest st clk)
  let ?st1 = "st\<lparr>orden_llegada := orden_llegada st @ [nombre]\<rparr>"
  from "3.prems"(1) have ex: "is_Exception cls" by (auto simp: Let_def split: if_splits)
  with "3.prems"(1) have run: "procesar_llegadas J inicio rest
             (?st1\<lparr>errores := errores ?st1 @
                    [\<lparr>endpoint = nombre, error = msg, cancelada = None\<rparr>]\<rparr>) clk = (Inr st', clk')"
    by (simp add: Let_def)
  have "pinv (?st1\<lparr>errores := errores ?st1 @
                    [\<lparr>endpoint = nombre, error = msg, cancelada = None\<rparr>]\<rparr>)"
    using "3.prems"(2) by (simp add: pinv_def)
  from "3.IH"[OF refl ex run this] show ?case by auto
qed

lemma pinv_mono:
  assumes "pinv st" "pinv st1" "criticas_completadas st \<subseteq> criticas_completadas st1"
    "tiempo_dashboard_parcial st \<noteq> None"
  shows "tiempo_dashboard_parcial st1 \<noteq> None"
proof -
  from assms(1,4) have "criticas_completadas st = tareas_criticas" by (simp add: pinv_def)
  with assms(2,3) have "criticas_completadas st1 = tareas_criticas" by (auto simp: pinv_def)
  with assms(2) show ?thesis by (simp add: pinv_def)
qed

lemma prioridad_loop_reads:
  assumes "prioridad_loop J inicio waits pend st clk = Some (r, clk')" "pinv st"
  shows "reads clk' \<le> reads clk + 1
       \<and> (tiempo_dashboard_parcial st \<noteq> None \<longrightarrow> reads clk' = reads clk)"
  using assms
proof (induction J inicio waits pend st clk rule: prioridad_loop.induct)
  case (1 J inicio waits st clk)
  then show ?case by simp
next
  case (2 J inicio p ps st clk)
  then show ?case by simp
next
  case (3 J inicio dones pendientes waits p ps st clk)
  obtain r1 clk1 where p1: "procesar_llegadas J inicio dones st clk = (r1, clk1)"
    by (cases "procesar_llegadas J inicio dones st clk")
  from procesar_llegadas_reads[of J inicio dones st clk] p1
  have b1: "reads clk1 \<le> reads clk + 1" "tiempo_dashboard_parcial st \<noteq> None \<longrightarrow> clk1 = clk"
    by simp_all
  show ?case
  proof (cases r1)
    case (Inl e)
    with p1 "3.prems" have "clk' = clk1" by simp
    with b1 show ?thesis by auto
  next
    case (Inr st1)
    with p1 "3.prems" have run: "prioridad_loop J inicio waits pendientes st1 clk1 = Some (r, clk')"
      by simp
    from p1 Inr have p1': "procesar_llegadas J inicio dones st clk = (Inr st1, clk1)" by simp
    from procesar_llegadas_inv[OF p1' "3.prems"(2)]
    have i1: "pinv st1"
      and cc: "criticas_completadas st1 = criticas_completadas st \<union> (tareas_criticas \<inter> exitosas dones)"
      and rd: "reads clk1 = reads clk +
            (if tiempo_dashboard_parcial st = None \<and> tiempo_dashboard_parcial st1 \<noteq> None then 1 else 0)"
      by simp_all
    from "3.IH"[OF p1[symmetric] Inr run i1]
    have ih: "reads clk' \<le> reads clk1 + 1"
      "tiempo_dashboard_parcial st1 \<noteq> None \<longrightarrow> reads clk' = reads clk1"
      by simp_all
    show ?thesis
    proof (cases "tiempo_dashboard_parcial st = None")
      case False
      from cc have "criticas_completadas st \<subseteq> criticas_completadas st1" by auto
      from pinv_mono[OF "3.prems"(2) i1 this False] have "tiempo_dashboard_parcial st1 \<noteq> None" .
      with ih rd False show ?thesis by simp
    next
      case True
      with ih rd show ?thesis by (cases "tiempo_dashboard_parcial st1 = None") simp_all
    qed
  qed
qed

lemma prioridad_loop_inv:
  assumes "prioridad_loop J inicio waits pend st clk = Some (Inr st', clk')" "pinv st"
    "pend \<noteq> []" "\<forall>w \<in> set (butlast waits). snd w \<noteq> []"
  shows "pinv st'
       \<and> criticas_completadas st' = criticas_completadas st \<union> (tareas_criticas \<inter> exitosas (llegadas waits))
       \<and> reads clk' = reads clk +
            (if tiempo_dashboard_parcial st = None \<and> tiempo_dashboard_parcial st' \<noteq> None then 1 else 0)"
  using assms
proof (induction J inicio waits pend st clk rule: prioridad_loop.induct)
  case (1 J inicio waits st clk)
  then show ?case by simp
next
  case (2 J inicio p ps st clk)
  then show ?case by simp
next
  case (3 J inicio dones pendientes waits p ps st clk)
  obtain r1 clk1 where p1: "procesar_llegadas J inicio dones st clk = (r1, clk1)"
    by (cases "procesar_llegadas J inicio dones st clk")
  show ?case
  proof (cases r1)
    case (Inl e)
    with p1 "3.prems"(1) show ?thesis by simp
  next
    case (Inr st1)
    with p1 "3.prems"(1) have run:
      "prioridad_loop J inicio waits pendientes st1 clk1 = Some (Inr st', clk')"
      by simp
    from p1 Inr have p1': "procesar_llegadas J inicio dones st clk = (Inr st1, clk1)" by simp
    from procesar_llegadas_inv[OF p1' "3.prems"(2)]
    have i1: "pinv st1"
      and cc: "criticas_completadas st1 = criticas_completadas st \<union> (tareas_criticas \<inter> exitosas dones)"
      and rd: "reads clk1 = reads clk +
            (if tiempo_dashboard_parcial st = None \<and> tiempo_dashboard_parcial st1 \<noteq> None then 1 else 0)"
      by simp_all
    show ?thesis
    proof (cases "pendientes = []")
      case True
      with run have fin: "st' = st1" "clk' = clk1" by simp_all
      from True "3.prems"(4) have "waits = []" by (cases waits) auto
      with fin i1 cc rd show ?thesis by (simp add: llegadas_def)
    next
      case False
      have bl: "\<forall>w \<in> set (butlast waits). snd w \<noteq> []"
        using "3.prems"(4) by (cases waits) auto
      from "3.IH"[OF p1[symmetric] Inr run i1 False bl]
      have ih: "pinv st'"
        "criticas_completadas st' = criticas_completadas st1 \<union> (tareas_criticas \<inter> exitosas (llegadas waits))"
        "reads clk' = reads clk1 +
            (if tiempo_dashboard_parcial st1 = None \<and> tiempo_dashboard_parcial st' \<noteq> None then 1 else 0)"
        by simp_all
      have ccs: "criticas_completadas st' = criticas_completadas st
                 \<union> (tareas_criticas \<inter> exitosas (llegadas ((dones, pendientes) # waits)))"
        using ih(2) cc by (auto simp: llegadas_Cons)
      have sub1: "criticas_completadas st \<subseteq> criticas_completadas st1" using cc by auto
      have sub2: "criticas_completadas st1 \<subseteq> criticas_completadas st'" using ih(2) by auto
      have rds: "reads clk' = reads clk +
            (if tiempo_dashboard_parcial st = None \<and> tiempo_dashboard_parcial st' \<noteq> None then 1 else 0)"
      proof (cases "tiempo_dashboard_parcial st = None")
        case f: False
        from pinv_mono[OF "3.prems"(2) i1 sub1 f] have t1: "tiempo_dashboard_parcial st1 \<noteq> None" .
        with ih(3) rd f show ?thesis by simp
      next
        case t: True
        show ?thesis
        proof (cases "tiempo_dashboard_parcial st1 = None")
          case True
          with ih(3) rd t show ?thesis by simp
        next
          case f1: False
          from pinv_mono[OF i1 ih(1) sub2 f1] have "tiempo_dashboard_parcial st' \<noteq> None" .
          with ih(3) rd t f1 show ?thesis by simp
        qed
      qed
      from ih(1) ccs rds show ?thesis by simp
    qed
  qed
qed

lemma card_criticas: "card tareas_criticas = 2"
  by (simp add: tareas_criticas_def)

lemma falla_value:
  "cargar_con_prioridad ticking_clock sample_prioridad_falla clock0 =
     Some (Inr \<lparr>criticas_completas = False, tiempo_parcial = None,
                datos_r = sin_datos(Productos \<mapsto> ''[]'', Categorias \<mapsto> ''[]'',
                                    Notificaciones \<mapsto> ''[]''),
                errores_r = [\<lparr>endpoint = Perfil, error = ''Error del servidor: 500'',
                                cancelada = None\<rparr>],
                orden_r = [Perfil, Productos, Categorias, Notificaciones]\<rparr>,
           \<lparr>now = 1, reads = 1, slept = []\<rparr>)"
  by (simp add: cargar_con_prioridad_def sample_prioridad_falla_def clock0_def ticking_clock_def
        time_time_def Let_def tareas_criticas_def sin_datos_def)

lemma ok_value:
  "cargar_con_prioridad ticking_clock sample_prioridad clock0 =
     Some (Inr \<lparr>criticas_completas = True, tiempo_parcial = Some 1,
                datos_r = sin_datos(Perfil \<mapsto> ''{}'', Productos \<mapsto> ''[]'', Categorias \<mapsto> ''[]'',
                                    Notificaciones \<mapsto> ''[]''),
                errores_r = [],
                orden_r = [Perfil, Productos, Categorias, Notificaciones]\<rparr>,
           \<lparr>now = 2, reads = 2, slept = []\<rparr>)"
  by (simp add: cargar_con_prioridad_def sample_prioridad_def clock0_def ticking_clock_def
        time_time_def Let_def tareas_criticas_def sin_datos_def insert_commute)

text \<open>
  Claim C1, counterexample. The critical \<open>Perfil\<close> fails, the critical \<open>Productos\<close> and both
  secondary tasks succeed; the run returns after all four tasks have settled, and
  \<open>tiempo_dashboard_parcial\<close> is still \<^verbatim>\<open>None\<close> (the clock has been read once, for
  \<^verbatim>\<open>inicio\<close>).
\<close>

theorem critical_ready_unset_counterexample:
  "cargar_con_prioridad ticking_clock sample_prioridad_falla clock0 =
     Some (Inr \<lparr>criticas_completas = False, tiempo_parcial = None,
                datos_r = sin_datos(Productos \<mapsto> ''[]'', Categorias \<mapsto> ''[]'',
                                    Notificaciones \<mapsto> ''[]''),
                errores_r = [\<lparr>endpoint = Perfil, error = ''Error del servidor: 500'',
                                cancelada = None\<rparr>],
                orden_r = [Perfil, Productos, Categorias, Notificaciones]\<rparr>,
           \<lparr>now = 1, reads = 1, slept = []\<rparr>)
   \<and> tareas_criticas \<subseteq> fst ` set (llegadas sample_prioridad_falla)"
  using falla_value by (simp add: llegadas_def sample_prioridad_falla_def tareas_criticas_def)

text \<open>
  Claim C1, as amended. In a run of \<^verbatim>\<open>cargar_con_prioridad\<close> the clock is read once for
  \<^verbatim>\<open>inicio\<close> and at most once more, for the one assignment of
  \<open>tiempo_dashboard_parcial\<close>. In a run that returns its report, the time is assigned if and
  only if both critical tasks (\<open>Productos\<close> and \<open>Perfil\<close>) arrived with a result; a critical
  task that failed leaves it \<^verbatim>\<open>None\<close>. \<open>criticas_completas\<close> says the same.
\<close>

theorem critical_ready_iff_criticals_succeeded:
  assumes "cargar_con_prioridad J waits clk = Some (r, clk')"
  shows "reads clk' \<le> reads clk + 2
       \<and> (\<forall>rep. r = Inr rep \<and> (\<forall>w \<in> set (butlast waits). snd w \<noteq> []) \<longrightarrow>
             (tiempo_parcial rep \<noteq> None \<longleftrightarrow> tareas_criticas \<subseteq> exitosas (llegadas waits))
           \<and> (tiempo_parcial rep \<noteq> None \<longleftrightarrow> reads clk' = reads clk + 2)
           \<and> (criticas_completas rep \<longleftrightarrow> tiempo_parcial rep \<noteq> None))"
proof -
  let ?st0 = "\<lparr>datos = (\<lambda>t. None), errores = [], orden_llegada = [],
              criticas_completadas = {}, tiempo_dashboard_parcial = None\<rparr>"
  let ?p0 = "[Productos, Categorias, Perfil, Notificaciones]"
  let ?c0 = "snd (time_time J clk)"
  have i0: "pinv ?st0" by (simp add: pinv_def tareas_criticas_def)
  obtain r0 where run: "prioridad_loop J (fst (time_time J clk)) waits ?p0 ?st0 ?c0 = Some (r0, clk')"
    and r: "r = map_sum id (\<lambda>st. \<lparr>criticas_completas = (card (criticas_completadas st) = card tareas_criticas),
                     tiempo_parcial = tiempo_dashboard_parcial st,
                     datos_r = datos st, errores_r = errores st,
                     orden_r = orden_llegada st\<rparr>) r0"
    using assms
    by (auto simp: cargar_con_prioridad_def split: option.splits sum.splits prod.splits
             simp del: time_time_simps)
  from prioridad_loop_reads[OF run i0] have first: "reads clk' \<le> reads clk + 2" by simp
  have second: "(tiempo_parcial rep \<noteq> None \<longleftrightarrow> tareas_criticas \<subseteq> exitosas (llegadas waits))
           \<and> (tiempo_parcial rep \<noteq> None \<longleftrightarrow> reads clk' = reads clk + 2)
           \<and> (criticas_completas rep \<longleftrightarrow> tiempo_parcial rep \<noteq> None)"
    if a: "r = Inr rep" "\<forall>w \<in> set (butlast waits). snd w \<noteq> []" for rep
  proof -
    from a(1) r obtain st where r0: "r0 = Inr st"
      and rep: "rep = \<lparr>criticas_completas = (card (criticas_completadas st) = card tareas_criticas),
                     tiempo_parcial = tiempo_dashboard_parcial st,
                     datos_r = datos st, errores_r = errores st,
                     orden_r = orden_llegada st\<rparr>"
      by (cases r0) auto
    from run r0 have run': "prioridad_loop J (fst (time_time J clk)) waits ?p0 ?st0 ?c0 = Some (Inr st, clk')"
      by simp
    from prioridad_loop_inv[OF run' i0 _ a(2)]
    have inv: "pinv st"
      and cc: "criticas_completadas st = tareas_criticas \<inter> exitosas (llegadas waits)"
      and rd: "reads clk' = reads ?c0 + (if tiempo_dashboard_parcial st \<noteq> None then 1 else 0)"
      by simp_all
    have fin: "finite tareas_criticas" by (simp add: tareas_criticas_def)
    have sub: "criticas_completadas st \<subseteq> tareas_criticas" using inv by (simp add: pinv_def)
    have cardeq: "card (criticas_completadas st) = card tareas_criticas
                  \<longleftrightarrow> criticas_completadas st = tareas_criticas"
      using card_subset_eq[OF fin sub] by auto
    have t: "tiempo_dashboard_parcial st \<noteq> None \<longleftrightarrow> criticas_completadas st = tareas_criticas"
      using inv by (simp add: pinv_def)
    have "criticas_completadas st = tareas_criticas \<longleftrightarrow> tareas_criticas \<subseteq> exitosas (llegadas waits)"
      using cc by auto
    with t cardeq rd show ?thesis by (simp add: rep)
  qed
  from first second show ?thesis by blast
qed

text \<open>Claim C1, witness: the run in which all four tasks succeed; the time is assigned when
  the second critical task arrives.\<close>

theorem critical_ready_iff_criticals_succeeded_witness:
  "cargar_con_prioridad ticking_clock sample_prioridad clock0 =
     Some (Inr \<lparr>criticas_completas = True, tiempo_parcial = Some 1,
                datos_r = sin_datos(Perfil \<mapsto> ''{}'', Productos \<mapsto> ''[]'', Categorias \<mapsto> ''[]'',
                                    Notificaciones \<mapsto> ''[]''),
                errores_r = [],
                orden_r = [Perfil, Productos, Categorias, Notificaciones]\<rparr>,
           \<lparr>now = 2, reads = 2, slept = []\<rparr>)
   \<and> tareas_criticas \<subseteq> exitosas (llegadas sample_prioridad)
   \<and> reads \<lparr>now = 2, reads = 2, slept = []\<rparr> \<le> reads clock0 + 2"
proof -
  have b: "\<forall>w \<in> set (butlast sample_prioridad). snd w \<noteq> []"
    by (simp add: sample_prioridad_def)
  from critical_ready_iff_criticals_succeeded[OF ok_value] b
  have "tareas_criticas \<subseteq> exitosas (llegadas sample_prioridad)"
    and "reads \<lparr>now = 2, reads = 2, slept = []\<rparr> \<le> reads clock0 + 2"
    by simp_all
  with ok_value show ?thesis by (intro conjI)
qed

section \<open>Fan-out: every creation settles\<close>






















end
